theory Spec2Isabelle
  imports Main
begin

section \<open>JavaScript values and string primitives\<close>

text \<open>
  The plugin is TypeScript. A JavaScript string is modelled as a \<^typ>\<open>string\<close> (a list of
  characters), a timestamp or counter as an \<^typ>\<open>int\<close> or \<^typ>\<open>nat\<close>, an optional
  property (\<^verbatim>\<open>x?: T\<close>) as \<^typ>\<open>'a option\<close> with \<^term>\<open>None\<close> for \<^verbatim>\<open>undefined\<close>.
  Where the code tells \<^verbatim>\<open>undefined\<close> from \<^verbatim>\<open>null\<close> (the export pipeline reads untyped
  JSON with \<^verbatim>\<open>??\<close> and \<^verbatim>\<open>!== undefined\<close>), the three-valued type \<open>js\<close> is used.
\<close>

abbreviation NL :: char where
  "NL \<equiv> CHR 0x0A"

abbreviation DQUOTE :: char where
  "DQUOTE \<equiv> CHR 0x22"

abbreviation BACKSLASH :: char where
  "BACKSLASH \<equiv> CHR 0x5C"

datatype 'a js = Undefined | Null | Val 'a

text \<open>\<^verbatim>\<open>a ?? b\<close>: the left operand unless it is \<^verbatim>\<open>undefined\<close> or \<^verbatim>\<open>null\<close>.\<close>

fun nullish_or :: "'a js \<Rightarrow> 'a js \<Rightarrow> 'a js" where
  "nullish_or Undefined b = b"
| "nullish_or Null b = b"
| "nullish_or (Val v) b = Val v"

text \<open>\<^verbatim>\<open>o?.p\<close>: \<^verbatim>\<open>undefined\<close> when \<^verbatim>\<open>o\<close> is \<^verbatim>\<open>undefined\<close> or \<^verbatim>\<open>null\<close>, the property otherwise.\<close>

fun opt_chain :: "'a js js \<Rightarrow> 'a js" where
  "opt_chain Undefined = Undefined"
| "opt_chain Null = Undefined"
| "opt_chain (Val p) = p"

text \<open>Truthiness of an optional string: \<^verbatim>\<open>undefined\<close> and \<^verbatim>\<open>''\<close> are falsy.\<close>

fun truthy :: "string option \<Rightarrow> bool" where
  "truthy None = False"
| "truthy (Some s) = (s \<noteq> [])"

text \<open>\<^verbatim>\<open>`${v}`\<close> for an optional string: \<^verbatim>\<open>undefined\<close> prints as the word.\<close>

fun template_str :: "string option \<Rightarrow> string" where
  "template_str None = ''undefined''"
| "template_str (Some s) = s"

text \<open>\<^verbatim>\<open>s.startsWith(p)\<close> and \<^verbatim>\<open>s.includes(p)\<close>.\<close>

fun starts_with :: "string \<Rightarrow> string \<Rightarrow> bool" where
  "starts_with s [] = True"
| "starts_with [] (p # ps) = False"
| "starts_with (c # s) (p # ps) = (c = p \<and> starts_with s ps)"

fun str_includes :: "string \<Rightarrow> string \<Rightarrow> bool" where
  "str_includes [] p = (p = [])"
| "str_includes (c # s) p = (starts_with (c # s) p \<or> str_includes s p)"

text \<open>
  \<^verbatim>\<open>s.replace(/[...]/g, r)\<close> for a pattern that matches one character at a time: every
  character satisfying \<open>m\<close> is replaced by the string \<open>r\<close>, the others are kept.
\<close>

fun replace_chars :: "(char \<Rightarrow> bool) \<Rightarrow> string \<Rightarrow> string \<Rightarrow> string" where
  "replace_chars m r [] = []"
| "replace_chars m r (c # s) = (if m c then r @ replace_chars m r s else c # replace_chars m r s)"

text \<open>Decimal printing of a number (\<^verbatim>\<open>n.toString()\<close>, \<^verbatim>\<open>`${n}`\<close>) for integers.\<close>

definition digit_char :: "nat \<Rightarrow> char" where
  "digit_char d = ''0123456789'' ! d"

fun show_nat :: "nat \<Rightarrow> string" where
  "show_nat n = (if n < 10 then [digit_char n] else show_nat (n div 10) @ [digit_char (n mod 10)])"

declare show_nat.simps [simp del]

definition show_int :: "int \<Rightarrow> string" where
  "show_int i = (if i < 0 then CHR ''-'' # show_nat (nat (- i)) else show_nat (nat i))"

text \<open>\<^verbatim>\<open>s.padStart(2, '0')\<close>.\<close>

definition padStart2 :: "string \<Rightarrow> string" where
  "padStart2 s = replicate (2 - length s) CHR ''0'' @ s"

section \<open>Data model\<close>

record FeedlySettings =
  userId :: "string option"
  accessToken :: "string option"
  lastSync :: "int option"
  continuationTime :: "int option"
  continuationToken :: "string option"
  annotationsFolder :: "string option"

text \<open>
  \<^verbatim>\<open>FeedlyAnnotatedEntry\<close>, flattened: \<open>highlight\<close> is the text of
  \<^verbatim>\<open>annotation.highlight\<close> when that object is present, \<open>origin\<close> the title of
  \<^verbatim>\<open>entry.origin\<close> when that object is present.
\<close>

record FeedlyAnnotatedEntry =
  highlight :: "string option"
  comment :: "string option"
  canonicalUrl :: string
  entry_id :: string
  published :: "int option"
  crawled :: int
  author :: string
  entry_title :: string
  origin :: "string option"
  created :: int

definition DEFAULT_SETTINGS :: FeedlySettings where
  "DEFAULT_SETTINGS = \<lparr>userId = None, accessToken = None, lastSync = None,
     continuationTime = None, continuationToken = None,
     annotationsFolder = Some ''Feedly Annotations''\<rparr>"

section \<open>Rendering an annotated entry\<close>

text \<open>\<^verbatim>\<open>sanitizeFrontmatter(v = '')\<close>: the argument defaults to the empty string.\<close>

definition sanitizeFrontmatter :: "string option \<Rightarrow> string" where
  "sanitizeFrontmatter v =
     replace_chars (\<lambda>c. c = CHR '':'') '' - '' (case v of None \<Rightarrow> [] | Some s \<Rightarrow> s)"

text \<open>
  A \<^verbatim>\<open>Date\<close> is seen through its local-time getters only: \<open>LocalDate y m d\<close> has
  \<^verbatim>\<open>getFullYear() = y\<close>, \<^verbatim>\<open>getMonth() = m\<close> (from 0) and \<^verbatim>\<open>getDate() = d\<close>; for an
  invalid date the three getters return \<^verbatim>\<open>NaN\<close>. The constructor \<^verbatim>\<open>new Date(ms)\<close> depends
  on the host's time zone and is a parameter \<open>newDate\<close> of everything that prints a date.
\<close>

datatype js_date = InvalidDate | LocalDate int nat nat

fun dateToJournal :: "js_date \<Rightarrow> string" where
  "dateToJournal InvalidDate = ''NaN-NaN-NaN''"
| "dateToJournal (LocalDate y m d) =
     show_int y @ ''-'' @ padStart2 (show_nat (m + 1)) @ ''-'' @ padStart2 (show_nat d)"

definition getInitialContent :: "(int \<Rightarrow> js_date) \<Rightarrow> FeedlyAnnotatedEntry \<Rightarrow> string" where
  "getInitialContent newDate entry =
     ''---'' @ (if canonicalUrl entry \<noteq> [] then [NL] @ ''url: '' @ canonicalUrl entry else [])
     @ [NL] @ ''feedlyUrl: https://feedly.com/i/entry/'' @ entry_id entry
     @ [NL] @ ''date: '' @ dateToJournal (newDate (created entry))
     @ [NL] @ ''pubDate: '' @ dateToJournal (newDate
          (case published entry of Some p \<Rightarrow> p | None \<Rightarrow> crawled entry))
     @ [NL] @ ''author: '' @ sanitizeFrontmatter (Some (author entry))
     @ (if truthy (origin entry) then [NL] @ ''publisher: '' @ sanitizeFrontmatter (origin entry)
        else [])
     @ [NL] @ ''---'' @ [NL]"

text \<open>
  \<^verbatim>\<open>getAppendContent\<close>: a highlight object is truthy whatever its text; a comment is
  truthy when it is a non-empty string.
\<close>

definition getAppendContent :: "FeedlyAnnotatedEntry \<Rightarrow> string" where
  "getAppendContent entry =
     (case highlight entry of
        Some t \<Rightarrow> [NL, NL] @ ''> '' @ replace_chars (\<lambda>c. c = NL) ([NL] @ ''>'' @ [NL] @ ''> '') t
      | None \<Rightarrow>
          if truthy (comment entry) then [NL] @ ''    '' @ [NL] @ template_str (comment entry)
          else [])"

text \<open>
  The file name of an entry's document, as \<^verbatim>\<open>processAnnotations\<close> computes it:
  \<^verbatim>\<open>e.entry.title.replace(/[*"\/<>:|?]/g, '')\<close>. In the character class \<^verbatim>\<open>\/\<close> is an
  escaped slash, so the class has eight members.
\<close>

definition sanitizedFileName :: "string \<Rightarrow> string" where
  "sanitizedFileName title =
     replace_chars (\<lambda>c. c \<in> set [CHR ''*'', DQUOTE, CHR ''/'', CHR ''<'', CHR ''>'',
                                  CHR '':'', CHR ''|'', CHR ''?'']) [] title"

section \<open>API gateway\<close>

text \<open>
  What \<^verbatim>\<open>apiCall\<close> hands to the host's \<^verbatim>\<open>requestUrl\<close>. A body is either the caller's
  value as it was passed (\<open>Raw\<close>) or a string (\<open>Text\<close>). \<^verbatim>\<open>JSON.stringify\<close> is the
  parameter \<open>stringify\<close>; \<^verbatim>\<open>data\<close> is \<^term>\<open>None\<close> when the caller passes none.
\<close>

datatype 'd body = Raw 'd | Text string

record 'd request =
  url :: string
  http_method :: string
  headers :: "(string \<times> string) list"
  body :: "'d body option"

text \<open>The outcome of \<^verbatim>\<open>requestUrl\<close>: rejected with an error \<open>e\<close> (kept as \<^verbatim>\<open>String(e)\<close>), or
  a response whose \<^verbatim>\<open>json\<close> is the payload.\<close>

datatype 'j response = Rejected string | Responded 'j

text \<open>\<^verbatim>\<open>apiCall\<close> of the file with the export command (\<^verbatim>\<open>body: JSON.stringify(data) ?? undefined\<close>).\<close>

definition apiCall_request :: "('d \<Rightarrow> string) \<Rightarrow> string \<Rightarrow> string \<Rightarrow> string \<Rightarrow> 'd option \<Rightarrow> 'd request" where
  "apiCall_request stringify token path method data =
     \<lparr>url = ''https://cloud.feedly.com/v3/'' @ path,
      http_method = method,
      headers = [(''Authorization'', ''Bearer '' @ token), (''Accept'', ''application/json'')],
      body = (case data of None \<Rightarrow> None | Some d \<Rightarrow> Some (Text (stringify d)))\<rparr>"

text \<open>\<^verbatim>\<open>apiCall\<close> of \<^verbatim>\<open>src/main.ts\<close> (\<^verbatim>\<open>body: data ?? undefined\<close>).\<close>

definition apiCall_request_main :: "string \<Rightarrow> string \<Rightarrow> string \<Rightarrow> 'd option \<Rightarrow> 'd request" where
  "apiCall_request_main token path method data =
     \<lparr>url = ''https://cloud.feedly.com/v3/'' @ path,
      http_method = method,
      headers = [(''Authorization'', ''Bearer '' @ token), (''Accept'', ''application/json'')],
      body = (case data of None \<Rightarrow> None | Some d \<Rightarrow> Some (Raw d))\<rparr>"

text \<open>
  The whole call: the request goes to \<open>requestUrl\<close>; a rejection \<open>e\<close> is rethrown as
  \<^verbatim>\<open>new Error(e)\<close>, whose message is \<^verbatim>\<open>String(e)\<close> (\<open>Inl\<close>); otherwise the payload is returned.
\<close>

definition apiCall :: "('d request \<Rightarrow> 'j response) \<Rightarrow> ('d \<Rightarrow> string) \<Rightarrow> string \<Rightarrow> string \<Rightarrow> string \<Rightarrow> 'd option \<Rightarrow> string + 'j" where
  "apiCall requestUrl stringify token path method data =
     (case requestUrl (apiCall_request stringify token path method data) of
        Rejected e \<Rightarrow> Inl e
      | Responded j \<Rightarrow> Inr j)"


section \<open>Fetching one page of annotations\<close>

text \<open>The payload of \<^verbatim>\<open>annotations/journal\<close>, as far as \<^verbatim>\<open>getAnnotations\<close> reads it.\<close>

record annotations_json =
  json_errorCode :: "int option"
  json_entries :: "FeedlyAnnotatedEntry list option"
  json_continuation :: "string option"

record page =
  page_entries :: "FeedlyAnnotatedEntry list"
  page_continuation :: "string option"
  page_count :: nat

definition getAnnotations_path :: "string option \<Rightarrow> int option \<Rightarrow> string" where
  "getAnnotations_path continuation syncTime =
     ''annotations/journal?newerThan='' @ show_int (case syncTime of None \<Rightarrow> 0 | Some t \<Rightarrow> t)
     @ ''&withEntries=true&count=100''
     @ (if truthy continuation then ''&continuation='' @ template_str continuation else [])"

definition getAnnotations_request :: "string \<Rightarrow> string option \<Rightarrow> int option \<Rightarrow> unit request" where
  "getAnnotations_request token continuation syncTime =
     apiCall_request (\<lambda>_. []) token (getAnnotations_path continuation syncTime) ''GET'' None"

text \<open>
  The \<^verbatim>\<open>catch\<close> block of \<^verbatim>\<open>getAnnotations\<close>: 401 and 429 are rethrown under a new message;
  after any other error the block ends and the function returns \<^verbatim>\<open>undefined\<close>
  (\<open>Inr None\<close>).
\<close>

definition getAnnotations_catch :: "string \<Rightarrow> string + page option" where
  "getAnnotations_catch message =
     (if str_includes message ''status 401'' then Inl ''Access token expired, request a new one''
      else if str_includes message ''status 429'' then Inl ''API rate limit reached''
      else Inr None)"

text \<open>The messages of \<^verbatim>\<open>new Error(a)\<close> for a payload object \<open>a\<close> and of the
  \<^verbatim>\<open>TypeError\<close> that reading \<^verbatim>\<open>a.entries.length\<close> raises when \<^verbatim>\<open>entries\<close> is missing.\<close>

definition OBJECT_MESSAGE :: string where
  "OBJECT_MESSAGE = ''[object Object]''"

definition LENGTH_TYPE_ERROR :: string where
  "LENGTH_TYPE_ERROR = ''Cannot read properties of undefined (reading 'length')''"

text \<open>Truthiness of a number: \<^verbatim>\<open>undefined\<close> and \<^verbatim>\<open>0\<close> are falsy.\<close>

fun truthy_num :: "int option \<Rightarrow> bool" where
  "truthy_num None = False"
| "truthy_num (Some c) = (c \<noteq> 0)"

text \<open>
  \<^verbatim>\<open>getAnnotations\<close>, for the host's \<^verbatim>\<open>requestUrl\<close>. \<open>Inl\<close> is a thrown message,
  \<open>Inr None\<close> the result \<^verbatim>\<open>undefined\<close>. Everything in the \<^verbatim>\<open>try\<close> block that throws
  (the call, \<^verbatim>\<open>throw new Error(a)\<close>, reading the length of missing entries) ends in the
  \<^verbatim>\<open>catch\<close> block.
\<close>

definition getAnnotations :: "(unit request \<Rightarrow> annotations_json response) \<Rightarrow> string \<Rightarrow> string option \<Rightarrow> int option \<Rightarrow> string + page option" where
  "getAnnotations requestUrl token continuation syncTime =
     (case apiCall requestUrl (\<lambda>_. []) token (getAnnotations_path continuation syncTime) ''GET'' None of
        Inl message \<Rightarrow> getAnnotations_catch message
      | Inr a \<Rightarrow>
          if truthy_num (json_errorCode a) then getAnnotations_catch OBJECT_MESSAGE
          else (case json_entries a of
                  None \<Rightarrow> getAnnotations_catch LENGTH_TYPE_ERROR
                | Some es \<Rightarrow> Inr (Some \<lparr>page_entries = es, page_continuation = json_continuation a,
                                          page_count = length es\<rparr>)))"



section \<open>The sync command\<close>

text \<open>
  The host's document store is outside the repository: it is the parameter \<open>V\<close>, a record
  of the five operations the command calls, over a vault state \<open>'v\<close> and file handles
  \<open>'f\<close> (\<^verbatim>\<open>TFile\<close>). An operation that can reject returns the error's message on the left.
\<close>

record ('v, 'f) vault_ops =
  getFolderByPath :: "'v \<Rightarrow> string \<Rightarrow> bool"
  createFolder :: "'v \<Rightarrow> string \<Rightarrow> string + 'v"
  getFileByPath :: "'v \<Rightarrow> string \<Rightarrow> 'f option"
  vault_create :: "'v \<Rightarrow> string \<Rightarrow> string \<Rightarrow> string + 'f \<times> 'v"
  vault_append :: "'v \<Rightarrow> 'f \<Rightarrow> string \<Rightarrow> string + 'v"
  normalizePath :: "string \<Rightarrow> string"

text \<open>What the user and the outside world see of a run, in the order it happens.\<close>

datatype event =
    Saved FeedlySettings
  | Requested "unit request"
  | Noticed string

text \<open>
  The state the command works on: \<open>settings\<close> is \<^verbatim>\<open>this.settings\<close>, \<open>persisted\<close> what
  \<^verbatim>\<open>saveData\<close> last wrote, \<open>loopToken\<close> the local variable \<^verbatim>\<open>continuationToken\<close>.
  A save takes effect at the call (the loop does not await it).
\<close>

record 'v sync_state =
  settings :: FeedlySettings
  persisted :: FeedlySettings
  vault :: 'v
  entryCounter :: nat
  loopToken :: "string option"
  events :: "event list"

text \<open>A step that either goes on with a state or throws a message, leaving a state.\<close>

datatype 's step = Next 's | Threw string 's

text \<open>How the loop body ends: with another iteration, or by leaving the loop.\<close>

datatype 's loop = Again 's | Exit 's

text \<open>
  How a run ends: \<open>Done\<close> when the callback returns, \<open>Aborted\<close> when it rejects with a
  message, \<open>Waiting\<close> when it is still awaiting a page the network has not answered.
\<close>

datatype 's run = Done 's | Aborted string 's | Waiting 's

text \<open>\<^verbatim>\<open>Object.assign({}, DEFAULT_SETTINGS, await this.loadData())\<close>.\<close>

definition loadSettings :: "FeedlySettings \<Rightarrow> FeedlySettings" where
  "loadSettings stored =
     stored\<lparr>annotationsFolder :=
       (case annotationsFolder stored of
          None \<Rightarrow> annotationsFolder DEFAULT_SETTINGS
        | Some f \<Rightarrow> Some f)\<rparr>"

definition saveSettings :: "'v sync_state \<Rightarrow> 'v sync_state" where
  "saveSettings st = st\<lparr>persisted := settings st, events := events st @ [Saved (settings st)]\<rparr>"

definition notice :: "string \<Rightarrow> 'v sync_state \<Rightarrow> 'v sync_state" where
  "notice message st = st\<lparr>events := events st @ [Noticed message]\<rparr>"

text \<open>One round of \<^verbatim>\<open>processAnnotations\<close>: the document of the entry is found or created,
  then the annotation is appended and the counter goes up.\<close>

definition appendEntry :: "('v, 'f) vault_ops \<Rightarrow> 'f \<Rightarrow> FeedlyAnnotatedEntry \<Rightarrow> 'v sync_state \<Rightarrow> 'v sync_state step" where
  "appendEntry V obsidianFile e st =
     (case vault_append V (vault st) obsidianFile (getAppendContent e) of
        Inl message \<Rightarrow> Threw message st
      | Inr v \<Rightarrow> Next (st\<lparr>vault := v, entryCounter := Suc (entryCounter st)\<rparr>))"

definition processEntry :: "('v, 'f) vault_ops \<Rightarrow> (int \<Rightarrow> js_date) \<Rightarrow> string \<Rightarrow> FeedlyAnnotatedEntry \<Rightarrow> 'v sync_state \<Rightarrow> 'v sync_state step" where
  "processEntry V newDate folderName e st =
     (let path = normalizePath V (folderName @ ''/'' @ sanitizedFileName (entry_title e) @ ''.md'')
      in case getFileByPath V (vault st) path of
           Some obsidianFile \<Rightarrow> appendEntry V obsidianFile e st
         | None \<Rightarrow>
             (case vault_create V (vault st) path (getInitialContent newDate e) of
                Inl message \<Rightarrow> Threw message st
              | Inr (obsidianFile, v) \<Rightarrow> appendEntry V obsidianFile e (st\<lparr>vault := v\<rparr>)))"

fun processAnnotations :: "('v, 'f) vault_ops \<Rightarrow> (int \<Rightarrow> js_date) \<Rightarrow> string \<Rightarrow> FeedlyAnnotatedEntry list \<Rightarrow> 'v sync_state \<Rightarrow> 'v sync_state step" where
  "processAnnotations V newDate folderName [] st = Next st"
| "processAnnotations V newDate folderName (e # es) st =
     (case processEntry V newDate folderName e st of
        Threw message st' \<Rightarrow> Threw message st'
      | Next st' \<Rightarrow> processAnnotations V newDate folderName es st')"

text \<open>The \<^verbatim>\<open>catch\<close> block of the loop.\<close>

definition loop_catch :: "string \<Rightarrow> 'v sync_state \<Rightarrow> 'v sync_state" where
  "loop_catch message st =
     (if str_includes message ''API rate limit''
      then notice ''The Feedly API rate limit has been reached, continue later'' st
      else notice message st)"

text \<open>The request one iteration sends, written into the trace.\<close>

definition send_request :: "'v sync_state \<Rightarrow> 'v sync_state" where
  "send_request st =
     st\<lparr>events := events st @
        [Requested (getAnnotations_request (template_str (accessToken (settings st)))
                      (loopToken st) (lastSync (settings st)))]\<rparr>"

text \<open>
  The body of \<^verbatim>\<open>while (true)\<close>, for the outcome \<open>r\<close> of this iteration's \<^verbatim>\<open>requestUrl\<close>.
\<close>

definition loop_body :: "('v, 'f) vault_ops \<Rightarrow> (int \<Rightarrow> js_date) \<Rightarrow> string \<Rightarrow> annotations_json response \<Rightarrow> 'v sync_state \<Rightarrow> 'v sync_state loop" where
  "loop_body V newDate folderName r st =
     (case getAnnotations (\<lambda>_. r) (template_str (accessToken (settings st)))
             (loopToken st) (lastSync (settings st)) of
        Inl message \<Rightarrow> Exit (loop_catch message (send_request st))
      | Inr None \<Rightarrow> Exit (send_request st)
      | Inr (Some res) \<Rightarrow>
          (case processAnnotations V newDate folderName (page_entries res)
                  ((send_request st)\<lparr>loopToken := page_continuation res\<rparr>) of
             Threw message st' \<Rightarrow> Exit (loop_catch message st')
           | Next st' \<Rightarrow>
               if page_count res < 100
               then Exit (notice ''All Feedly annotations synced''
                      (saveSettings (st'\<lparr>settings := (settings st')
                         \<lparr>continuationToken := None,
                          lastSync := continuationTime (settings st')\<rparr>\<rparr>)))
               else Again (saveSettings (st'\<lparr>settings := (settings st')
                         \<lparr>continuationToken := loopToken st'\<rparr>\<rparr>))))"

text \<open>
  The loop over a script: the outcomes of the successive page requests, as far as the
  network has answered.
\<close>

fun sync_loop :: "('v, 'f) vault_ops \<Rightarrow> (int \<Rightarrow> js_date) \<Rightarrow> string \<Rightarrow> annotations_json response list \<Rightarrow> 'v sync_state \<Rightarrow> 'v sync_state run" where
  "sync_loop V newDate folderName [] st = Waiting (send_request st)"
| "sync_loop V newDate folderName (r # script) st =
     (case loop_body V newDate folderName r st of
        Exit st' \<Rightarrow> Done st'
      | Again st' \<Rightarrow> sync_loop V newDate folderName script st')"

text \<open>
  The callback of the command \<^verbatim>\<open>sync\<close>: \<open>now\<close> is \<^verbatim>\<open>Date.now()\<close>, \<open>stored\<close> the data the
  host has saved for the plugin, \<open>v\<close> the vault.
\<close>

definition sync_begin :: "int \<Rightarrow> 'v sync_state \<Rightarrow> 'v sync_state" where
  "sync_begin now st =
     (let st1 = st\<lparr>entryCounter := 0, loopToken := continuationToken (settings st)\<rparr>
      in notice ''Beginning to download Feedly annotations''
           (if \<not> truthy (loopToken st1)
            then saveSettings (st1\<lparr>settings := (settings st1)\<lparr>continuationTime := Some now\<rparr>\<rparr>)
            else st1))"

definition sync :: "('v, 'f) vault_ops \<Rightarrow> (int \<Rightarrow> js_date) \<Rightarrow> int \<Rightarrow> annotations_json response list \<Rightarrow> FeedlySettings \<Rightarrow> 'v \<Rightarrow> 'v sync_state run" where
  "sync V newDate now script stored v =
     (let st = \<lparr>settings = loadSettings stored, persisted = stored, vault = v,
                 entryCounter = 0, loopToken = None, events = []\<rparr>
      in if \<not> truthy (userId (settings st)) then Done (notice ''Missing Feedly user id'' st)
         else if \<not> truthy (accessToken (settings st))
         then Done (notice ''Missing Feedly access token'' st)
         else
           (let st1 = sync_begin now st;
                folderName = (case annotationsFolder (settings st1) of
                                Some f \<Rightarrow> f | None \<Rightarrow> ''Feedly Annotations'')
            in case (if getFolderByPath V (vault st1) folderName then Inr (vault st1)
                     else createFolder V (vault st1) folderName) of
                 Inl message \<Rightarrow> Aborted message st1
               | Inr v1 \<Rightarrow>
                   (case sync_loop V newDate folderName script (st1\<lparr>vault := v1\<rparr>) of
                      Done st2 \<Rightarrow>
                        Done (notice (''Synced '' @ show_nat (entryCounter st2) @ '' annotations'') st2)
                    | Aborted message st2 \<Rightarrow> Aborted message st2
                    | Waiting st2 \<Rightarrow> Waiting st2)))"

text \<open>The final state of a run, however it ended.\<close>

fun run_state :: "'s run \<Rightarrow> 's" where
  "run_state (Done s) = s"
| "run_state (Aborted message s) = s"
| "run_state (Waiting s) = s"

section \<open>The export command\<close>

text \<open>
  An article of the stream, as far as the command reads it. The payload is untyped JSON:
  \<open>art_content\<close> and \<open>art_summary\<close> are the objects \<^verbatim>\<open>content\<close> and \<^verbatim>\<open>summary\<close> seen
  through their property \<^verbatim>\<open>content\<close>; \<open>art_origin\<close> is the title of \<^verbatim>\<open>origin\<close> when that
  object is present.
\<close>

record article =
  art_content :: "string js js"
  art_summary :: "string js js"
  art_fullContent :: "string js"
  art_canonicalUrl :: "string option"
  art_id :: string
  art_title :: string
  art_published :: "int option"
  art_crawled :: int
  art_author :: "string option"
  art_origin :: "string option"

text \<open>\<^verbatim>\<open>article.content?.content ?? article.summary?.content ?? article.fullContent\<close>.\<close>

definition getContent :: "article \<Rightarrow> string js" where
  "getContent x =
     nullish_or (nullish_or (opt_chain (art_content x)) (opt_chain (art_summary x)))
       (art_fullContent x)"

text \<open>\<^verbatim>\<open>articles.filter(x => getContent(x) !== undefined)\<close>.\<close>

definition articlesToExport :: "article list \<Rightarrow> article list" where
  "articlesToExport articles = filter (\<lambda>x. getContent x \<noteq> Undefined) articles"

text \<open>
  The section of one article (the callback of \<^verbatim>\<open>map\<close>). Reading \<^verbatim>\<open>x.origin.title\<close> for
  an article with neither author nor origin raises a \<^verbatim>\<open>TypeError\<close>.
\<close>

definition ORIGIN_TYPE_ERROR :: string where
  "ORIGIN_TYPE_ERROR = ''Cannot read properties of undefined (reading 'title')''"

record export_section =
  sec_title :: string
  sec_author :: "string option"
  sec_data :: string
  sec_css :: string

definition article_body :: "article \<Rightarrow> string" where
  "article_body x =
     (case getContent x of
        Val c \<Rightarrow>
          if c \<noteq> [] then [NL] @ ''                        <div>'' @ [NL]
             @ ''                        '' @ c @ [NL]
             @ ''                        </div>'' @ [NL] @ ''                    ''
          else []
      | _ \<Rightarrow> [])"

text \<open>The text assigned to \<^verbatim>\<open>data\<close>, for the author \<open>a\<close> that \<^verbatim>\<open>x.author ?? x.origin.title\<close>
  yields.\<close>

definition article_data :: "(int \<Rightarrow> js_date) \<Rightarrow> article \<Rightarrow> string \<Rightarrow> string" where
  "article_data newDate x a =
     ''<pre>---''
     @ (if truthy (art_canonicalUrl x)
        then [NL] @ ''url: '' @ template_str (art_canonicalUrl x) else [])
     @ [NL] @ ''feedlyUrl: https://feedly.com/i/entry/'' @ art_id x
     @ [NL] @ ''title: '' @ art_title x
     @ [NL] @ ''pubDate: '' @ dateToJournal (newDate
          (case art_published x of Some p \<Rightarrow> p | None \<Rightarrow> art_crawled x))
     @ [NL] @ ''author: '' @ sanitizeFrontmatter (Some a)
     @ (if truthy (art_origin x)
        then [NL] @ ''publisher: '' @ sanitizeFrontmatter (art_origin x) else [])
     @ [NL] @ ''---</pre>'' @ [NL, NL]
     @ article_body x"

definition article_section :: "(int \<Rightarrow> js_date) \<Rightarrow> article \<Rightarrow> string + export_section" where
  "article_section newDate x =
     (case (case art_author x of
              Some a \<Rightarrow> Inr a
            | None \<Rightarrow> (case art_origin x of None \<Rightarrow> Inl ORIGIN_TYPE_ERROR | Some t \<Rightarrow> Inr t)) of
        Inl message \<Rightarrow> Inl message
      | Inr a \<Rightarrow>
          Inr \<lparr>sec_title = art_title x,
               sec_author = art_author x,
               sec_data = article_data newDate x a,
               sec_css = ''img { display: none; width: 0px; height: 0px; }''\<rparr>)"




section \<open>Packing the archive\<close>

text \<open>
  A file as the e-book library hands it to \<^verbatim>\<open>generateEpub\<close>: the code reads the
  properties \<^verbatim>\<open>name\<close>, \<^verbatim>\<open>folder\<close>, \<^verbatim>\<open>content\<close> and, for the mimetype file, \<^verbatim>\<open>data\<close>.
\<close>

record epub_file =
  file_name :: string
  file_folder :: string
  file_content :: string
  file_data :: "string option"

text \<open>
  The zip container as the code uses it: entries kept in the order they were first
  written, one per path. Writing a path again replaces the entry where it stands;
  \<^verbatim>\<open>folder(name)\<close> writes a directory entry unless there is one and yields the prefix for
  the files put under it. \<open>entry_compression\<close> is the option given for the entry, if any.
\<close>

record zip_entry =
  entry_path :: string
  entry_payload :: "string option"
  entry_compression :: "string option"
  entry_dir :: bool

fun zip_put :: "zip_entry \<Rightarrow> zip_entry list \<Rightarrow> zip_entry list" where
  "zip_put e [] = [e]"
| "zip_put e (x # z) = (if entry_path x = entry_path e then e # z else x # zip_put e z)"

definition zip_file :: "string \<Rightarrow> string \<Rightarrow> string option \<Rightarrow> string option \<Rightarrow> zip_entry list \<Rightarrow> zip_entry list" where
  "zip_file root name payload compression z =
     zip_put \<lparr>entry_path = root @ name, entry_payload = payload,
              entry_compression = compression, entry_dir = False\<rparr> z"

definition zip_folder :: "string \<Rightarrow> string \<Rightarrow> zip_entry list \<Rightarrow> string \<times> zip_entry list" where
  "zip_folder root name z =
     (let p = root @ name @ ''/''
      in (p, if p \<in> set (map entry_path z) then z
             else z @ [\<lparr>entry_path = p, entry_payload = None,
                         entry_compression = None, entry_dir = True\<rparr>]))"

definition FOLDER_TYPE_ERROR :: string where
  "FOLDER_TYPE_ERROR = ''Cannot read properties of undefined (reading 'file')''"

text \<open>The loop over the files; \<open>folders\<close> maps a folder name to the prefix of its handle.\<close>

fun add_files :: "(string \<times> string) list \<Rightarrow> epub_file list \<Rightarrow> zip_entry list \<Rightarrow> string + zip_entry list" where
  "add_files folders [] z = Inr z"
| "add_files folders (f # fs) z =
     (if file_name f \<noteq> ''mimetype''
      then (if file_folder f \<noteq> []
            then (case map_of folders (file_folder f) of
                    None \<Rightarrow> Inl FOLDER_TYPE_ERROR
                  | Some root \<Rightarrow>
                      add_files folders fs (zip_file root (file_name f) (Some (file_content f)) None z))
            else add_files folders fs
                   (zip_file [] (file_folder f @ ''/'' @ file_name f) (Some (file_content f)) None z))
      else add_files folders fs z)"

text \<open>Steps 3 to 5 of \<^verbatim>\<open>generateEpub\<close>: the entries \<^verbatim>\<open>generateAsync\<close> is called on.\<close>

definition zip_assemble :: "epub_file list \<Rightarrow> string + zip_entry list" where
  "zip_assemble files =
     (let z0 = (case find (\<lambda>file. file_name file = ''mimetype'') files of
                  Some mimetypeFile \<Rightarrow>
                    zip_file [] (file_name mimetypeFile) (file_data mimetypeFile) (Some ''STORE'') []
                | None \<Rightarrow> []);
          (meta, z1) = zip_folder [] ''META-INF'' z0;
          (oebpf, z2) = zip_folder [] ''OEBPF'' z1;
          (css, z3) = zip_folder oebpf ''css'' z2;
          (content, z4) = zip_folder oebpf ''content'' z3;
          (images, z5) = zip_folder oebpf ''images'' z4
      in add_files [(''META-INF'', meta), (''OEBPF'', oebpf), (''OEBPF/css'', css),
                    (''OEBPF/content'', content), (''OEBPF/images'', images)] files z5)"

section \<open>Notions used to state the properties\<close>

text \<open>The state a step or a loop body leaves, however it ends.\<close>

fun step_state :: "'s step \<Rightarrow> 's" where
  "step_state (Next s) = s"
| "step_state (Threw message s) = s"

fun loop_state :: "'s loop \<Rightarrow> 's" where
  "loop_state (Again s) = s"
| "loop_state (Exit s) = s"

text \<open>
  An iteration merges a short page when its request is answered with a page, every entry
  of the page is written to the vault without an error, and the page has fewer than 100
  entries.
\<close>

definition merges_short_page :: "('v, 'f) vault_ops \<Rightarrow> (int \<Rightarrow> js_date) \<Rightarrow> string \<Rightarrow> annotations_json response \<Rightarrow> 'v sync_state \<Rightarrow> bool" where
  "merges_short_page V newDate folderName r st =
     (case getAnnotations (\<lambda>_. r) (template_str (accessToken (settings st)))
             (loopToken st) (lastSync (settings st)) of
        Inr (Some res) \<Rightarrow>
          (case processAnnotations V newDate folderName (page_entries res)
                  ((send_request st)\<lparr>loopToken := page_continuation res\<rparr>) of
             Next st' \<Rightarrow> page_count res < 100
           | Threw message st' \<Rightarrow> False)
      | _ \<Rightarrow> False)"

text \<open>\<^verbatim>\<open>zip.file(path)\<close> with one argument: the entry stored under a path.\<close>

definition zip_read :: "string \<Rightarrow> zip_entry list \<Rightarrow> zip_entry option" where
  "zip_read p z = find (\<lambda>e. entry_path e = p) z"

text \<open>The entry the loop of \<^verbatim>\<open>generateEpub\<close> writes for a file.\<close>

definition file_entry :: "epub_file \<Rightarrow> zip_entry" where
  "file_entry f = \<lparr>entry_path = file_folder f @ ''/'' @ file_name f,
     entry_payload = Some (file_content f), entry_compression = None, entry_dir = False\<rparr>"

text \<open>The lines of a text: the pieces between line breaks.\<close>

fun lines_of :: "string \<Rightarrow> string list" where
  "lines_of [] = [[]]"
| "lines_of (c # s) =
     (if c = NL then [] # lines_of s
      else (case lines_of s of [] \<Rightarrow> [[c]] | l # ls \<Rightarrow> (c # l) # ls))"

text \<open>A Markdown blockquote of the given lines, each followed by a quoted empty line
  except the last.\<close>

fun quote_lines :: "string list \<Rightarrow> string list" where
  "quote_lines [] = []"
| "quote_lines [l] = [''> '' @ l]"
| "quote_lines (l # m # ls) = (''> '' @ l) # ''>'' # quote_lines (m # ls)"

section \<open>Example data\<close>

text \<open>An entry without annotation, and an in-memory document store whose operations never
  fail, used to run the definitions on concrete inputs.\<close>

definition entry0 :: FeedlyAnnotatedEntry where
  "entry0 = \<lparr>highlight = None, comment = None, canonicalUrl = ''https://example.org/a'',
     entry_id = ''e1'', published = None, crawled = 0, author = ''Ann: Lee'',
     entry_title = ''AI & Chips'', origin = Some ''IEEE: Spectrum'', created = 0\<rparr>"

definition mem_vault :: "((string \<times> string) list \<times> string list, string) vault_ops" where
  "mem_vault =
     \<lparr>getFolderByPath = (\<lambda>(fs, ds) p. p \<in> set ds),
      createFolder = (\<lambda>(fs, ds) p. Inr (fs, ds @ [p])),
      getFileByPath = (\<lambda>(fs, ds) p. if p \<in> set (map fst fs) then Some p else None),
      vault_create = (\<lambda>(fs, ds) p c. Inr (p, (fs @ [(p, c)], ds))),
      vault_append = (\<lambda>(fs, ds) f c.
         Inr (map (\<lambda>(p, t). if p = f then (p, t @ c) else (p, t)) fs, ds)),
      normalizePath = (\<lambda>p. p)\<rparr>"

definition article0 :: article where
  "article0 = \<lparr>art_content = Val (Val []), art_summary = Val (Val ''S''),
     art_fullContent = Val ''F'', art_canonicalUrl = None, art_id = ''a1'',
     art_title = ''Chips: a survey'', art_published = None, art_crawled = 0,
     art_author = Some ''Ann: Lee'', art_origin = None\<rparr>"

definition epub_files0 :: "epub_file list" where
  "epub_files0 =
     [\<lparr>file_name = ''mimetype'', file_folder = [], file_content = ''application/epub+zip'',
       file_data = None\<rparr>,
      \<lparr>file_name = ''container.xml'', file_folder = ''META-INF'', file_content = ''<container/>'',
       file_data = None\<rparr>,
      \<lparr>file_name = ''ebook.opf'', file_folder = ''OEBPF'', file_content = ''<package/>'',
       file_data = None\<rparr>,
      \<lparr>file_name = ''ebook.css'', file_folder = ''OEBPF/css'', file_content = ''img {}'',
       file_data = None\<rparr>,
      \<lparr>file_name = ''s1.xhtml'', file_folder = ''OEBPF/content'', file_content = ''<html/>'',
       file_data = None\<rparr>]"

definition stored0 :: FeedlySettings where
  "stored0 = \<lparr>userId = Some ''u1'', accessToken = Some ''tok'', lastSync = Some 100,
     continuationTime = Some 5, continuationToken = None, annotationsFolder = None\<rparr>"

definition short_page0 :: "annotations_json response" where
  "short_page0 = Responded \<lparr>json_errorCode = None,
     json_entries = Some [entry0\<lparr>highlight := Some ''quote''\<rparr>, entry0\<lparr>comment := Some ''note''\<rparr>],
     json_continuation = None\<rparr>"

definition full_page0 :: "annotations_json response" where
  "full_page0 = Responded \<lparr>json_errorCode = None,
     json_entries = Some (replicate 100 (entry0\<lparr>comment := Some ''n''\<rparr>)),
     json_continuation = Some ''c2''\<rparr>"

definition state0 :: "((string \<times> string) list \<times> string list) sync_state" where
  "state0 = \<lparr>settings = stored0\<lparr>continuationToken := Some ''c1''\<rparr>,
     persisted = stored0\<lparr>continuationToken := Some ''c1''\<rparr>,
     vault = ([], [''Feedly Annotations'']), entryCounter = 0, loopToken = Some ''c1'',
     events = []\<rparr>"




text \<open>A \<^verbatim>\<open>new Date\<close> that knows the epoch only.\<close>

definition epoch_clock :: "int \<Rightarrow> js_date" where
  "epoch_clock ms = (if ms = 0 then LocalDate 1970 0 1 else InvalidDate)"

section \<open>Properties\<close>

subsection \<open>Sanitizing names and frontmatter values\<close>

lemma replace_chars_filter: "replace_chars m [] s = filter (\<lambda>c. \<not> m c) s"
  by (induction s) auto

lemma replace_chars_concat:
  "replace_chars m r s = concat (map (\<lambda>c. if m c then r else [c]) s)"
  by (induction s) auto

lemma sanitizedFileName_filter:
  "sanitizedFileName title =
     filter (\<lambda>c. c \<notin> {CHR ''*'', DQUOTE, CHR ''/'', CHR ''<'', CHR ''>'', CHR '':'', CHR ''|'',
                        CHR ''?''}) title"
  by (simp add: sanitizedFileName_def replace_chars_filter)

text \<open>
  Claim C3. The sanitized file name should be the title without any of the nine
  characters \<^verbatim>\<open>* " / \ < > : | ?\<close>. The code removes eight of them: for the title
  \<^verbatim>\<open>a\b/c?\<close> the slash and the question mark go, the backslash stays.
\<close>

theorem sanitizedFileName_keeps_backslash:
  "sanitizedFileName [CHR ''a'', BACKSLASH, CHR ''b'', CHR ''/'', CHR ''c'', CHR ''?''] =
     [CHR ''a'', BACKSLASH, CHR ''b'', CHR ''c'']"
  by (simp add: sanitizedFileName_def)

lemma sanitizeFrontmatter_no_colon: "CHR '':'' \<notin> set (sanitizeFrontmatter v)"
proof -
  have "CHR '':'' \<notin> set (replace_chars (\<lambda>c. c = CHR '':'') '' - '' s)" for s
    by (induction s) auto
  then show ?thesis by (simp add: sanitizeFrontmatter_def)
qed

text \<open>
  Claim C10. \<^verbatim>\<open>sanitizeFrontmatter\<close> replaces every colon by the three characters
  \<^verbatim>\<open> - \<close>, so its result has no colon. The frontmatter of a new document ends with
  the line \<^verbatim>\<open>author: \<close> and the sanitized author, then, when the entry has an origin with a
  title, the line \<^verbatim>\<open>publisher: \<close> and the sanitized origin title, then the closing
  \<^verbatim>\<open>---\<close>. The metadata block of an exported article has the line \<^verbatim>\<open>title: \<close> followed
  by the title as it is.
\<close>

theorem frontmatter_values_sanitized:
  "CHR '':'' \<notin> set (sanitizeFrontmatter v)
   \<and> sanitizeFrontmatter (Some s) = concat (map (\<lambda>c. if c = CHR '':'' then '' - '' else [c]) s)
   \<and> (\<exists>pre. getInitialContent newDate e =
         pre @ [NL] @ ''author: '' @ sanitizeFrontmatter (Some (author e))
         @ (if truthy (origin e) then [NL] @ ''publisher: '' @ sanitizeFrontmatter (origin e) else [])
         @ [NL] @ ''---'' @ [NL])
   \<and> (article_section newDate x = Inr sec \<longrightarrow>
        (\<exists>pre post. sec_data sec = pre @ [NL] @ ''title: '' @ art_title x @ [NL] @ post))"
proof -
  have a: "\<exists>pre. getInitialContent newDate e =
         pre @ [NL] @ ''author: '' @ sanitizeFrontmatter (Some (author e))
         @ (if truthy (origin e) then [NL] @ ''publisher: '' @ sanitizeFrontmatter (origin e) else [])
         @ [NL] @ ''---'' @ [NL]"
    unfolding getInitialContent_def
    by (rule exI [of _ "''---''
          @ (if canonicalUrl e \<noteq> [] then [NL] @ ''url: '' @ canonicalUrl e else [])
          @ [NL] @ ''feedlyUrl: https://feedly.com/i/entry/'' @ entry_id e
          @ [NL] @ ''date: '' @ dateToJournal (newDate (created e))
          @ [NL] @ ''pubDate: '' @ dateToJournal (newDate
               (case published e of Some p \<Rightarrow> p | None \<Rightarrow> crawled e))"]) simp
  have b: "\<exists>pre post. sec_data sec = pre @ [NL] @ ''title: '' @ art_title x @ [NL] @ post"
    if h: "article_section newDate x = Inr sec"
  proof -
    obtain a where sec: "sec_data sec = article_data newDate x a"
      using h by (auto simp: article_section_def split: option.splits sum.splits)
    show ?thesis
      unfolding sec article_data_def
      by (rule exI [of _ "''<pre>---''
             @ (if truthy (art_canonicalUrl x)
                then [NL] @ ''url: '' @ template_str (art_canonicalUrl x) else [])
             @ [NL] @ ''feedlyUrl: https://feedly.com/i/entry/'' @ art_id x"],
          rule exI [of _ "''pubDate: '' @ dateToJournal (newDate
                  (case art_published x of Some p \<Rightarrow> p | None \<Rightarrow> art_crawled x))
             @ [NL] @ ''author: '' @ sanitizeFrontmatter (Some a)
             @ (if truthy (art_origin x)
                then [NL] @ ''publisher: '' @ sanitizeFrontmatter (art_origin x) else [])
             @ [NL] @ ''---</pre>'' @ [NL, NL]
             @ article_body x"]) simp
  qed
  show ?thesis
    using a b sanitizeFrontmatter_no_colon [of v]
    by (simp add: sanitizeFrontmatter_def replace_chars_concat)
qed

theorem frontmatter_values_sanitized_witness:
  "sanitizeFrontmatter (Some ''Ann: Lee'') = ''Ann -  Lee''
   \<and> (\<exists>sec. article_section epoch_clock article0 = Inr sec
        \<and> (\<exists>pre post. sec_data sec = pre @ [NL] @ ''title: Chips: a survey'' @ [NL] @ post))"
proof -
  obtain sec where sec: "article_section epoch_clock article0 = Inr sec"
    by (simp add: article_section_def article0_def)
  show ?thesis
    using sec frontmatter_values_sanitized
      [of "Some ''Ann: Lee''" "''Ann: Lee''" epoch_clock entry0 article0 sec]
    by (simp add: article0_def)
qed

subsection \<open>Text appended for an annotation\<close>

lemma lines_of_nonempty: "lines_of s \<noteq> []"
  by (induction s) (auto split: list.splits)

lemma lines_of_Cons_other: "c \<noteq> NL \<Longrightarrow> lines_of (c # s) = (c # hd (lines_of s)) # tl (lines_of s)"
  using lines_of_nonempty [of s] by (cases "lines_of s") auto

lemma lines_of_prepend: "NL \<notin> set p \<Longrightarrow> lines_of (p @ s) = (p @ hd (lines_of s)) # tl (lines_of s)"
proof (induction p)
  case Nil
  then show ?case using lines_of_nonempty [of s] by simp
next
  case (Cons c p)
  then have "c \<noteq> NL" and "NL \<notin> set p" by auto
  then show ?case using Cons.IH by (simp add: lines_of_Cons_other del: lines_of.simps)
qed

lemma lines_of_replace:
  "lines_of (replace_chars (\<lambda>c. c = NL) ([NL] @ ''>'' @ [NL] @ ''> '') t) =
     hd (lines_of t) # concat (map (\<lambda>m. [''>'', ''> '' @ m]) (tl (lines_of t)))"
proof (induction t)
  case Nil
  then show ?case by simp
next
  case (Cons c t)
  let ?R = "replace_chars (\<lambda>c. c = NL) ([NL] @ ''>'' @ [NL] @ ''> '')"
  show ?case
  proof (cases "c = NL")
    case True
    have "lines_of (?R (c # t)) = [] # ''>'' # lines_of (''> '' @ ?R t)"
      using True by simp
    also have "lines_of (''> '' @ ?R t) = (''> '' @ hd (lines_of (?R t))) # tl (lines_of (?R t))"
      by (rule lines_of_prepend) simp
    finally show ?thesis
      using True Cons.IH lines_of_nonempty [of t] by (cases "lines_of t") simp_all
  next
    case False
    then have "lines_of (?R (c # t)) = (c # hd (lines_of (?R t))) # tl (lines_of (?R t))"
      by (simp add: lines_of_Cons_other del: lines_of.simps)
    then show ?thesis using False Cons.IH by (simp add: lines_of_Cons_other del: lines_of.simps)
  qed
qed

lemma quote_lines_Cons:
  "quote_lines (l # ls) = (''> '' @ l) # concat (map (\<lambda>m. [''>'', ''> '' @ m]) ls)"
  by (induction ls arbitrary: l) auto

lemma lines_of_blockquote:
  "lines_of ([NL, NL] @ ''> '' @ replace_chars (\<lambda>c. c = NL) ([NL] @ ''>'' @ [NL] @ ''> '') t) =
     [] # [] # quote_lines (lines_of t)"
proof -
  let ?R = "replace_chars (\<lambda>c. c = NL) ([NL] @ ''>'' @ [NL] @ ''> '') t"
  have "lines_of (''> '' @ ?R) = (''> '' @ hd (lines_of ?R)) # tl (lines_of ?R)"
    by (rule lines_of_prepend) simp
  also have "\<dots> = quote_lines (hd (lines_of t) # tl (lines_of t))"
    unfolding lines_of_replace quote_lines_Cons by simp
  finally have "lines_of (''> '' @ ?R) = quote_lines (lines_of t)"
    using lines_of_nonempty [of t] by simp
  then show ?thesis by simp
qed

text \<open>
  Claim C8. For an entry with a highlight, the appended text is two line breaks and then
  a blockquote of the highlight: read line by line, it is two empty lines followed by the
  lines of the highlight text, each behind \<^verbatim>\<open>> \<close> and separated by a quoted empty line
  \<^verbatim>\<open>>\<close>. For an entry with a comment and no highlight it is a plain paragraph: a line
  break, a line of four spaces, a line break and the comment text (and nothing at all when
  the comment is the empty string, which has no text to show). For an entry with neither it
  is empty.
\<close>

theorem appended_text:
  "(highlight e = Some t \<longrightarrow>
      getAppendContent e =
        [NL, NL] @ ''> '' @ replace_chars (\<lambda>c. c = NL) ([NL] @ ''>'' @ [NL] @ ''> '') t
      \<and> lines_of (getAppendContent e) = [] # [] # quote_lines (lines_of t))
   \<and> (highlight e = None \<longrightarrow> comment e = Some c \<longrightarrow>
      getAppendContent e = (if c = [] then [] else [NL] @ ''    '' @ [NL] @ c))
   \<and> (highlight e = None \<longrightarrow> comment e = None \<longrightarrow> getAppendContent e = [])"
  using lines_of_blockquote [of t] by (simp add: getAppendContent_def)

theorem appended_text_witness:
  "lines_of (getAppendContent (entry0\<lparr>highlight := Some (''ab'' @ [NL] @ ''c'')\<rparr>)) =
     [[], [], ''> ab'', ''>'', ''> c'']
   \<and> getAppendContent (entry0\<lparr>comment := Some ''note''\<rparr>) = [NL] @ ''    '' @ [NL] @ ''note''
   \<and> getAppendContent entry0 = []"
  using appended_text [of "entry0\<lparr>highlight := Some (''ab'' @ [NL] @ ''c'')\<rparr>" "''ab'' @ [NL] @ ''c''"]
    appended_text [of "entry0\<lparr>comment := Some ''note''\<rparr>" _ "''note''"]
    appended_text [of entry0]
  by (simp add: entry0_def)

subsection \<open>Requests\<close>

lemma apiCall_headers:
  "headers (apiCall_request stringify token path method data) =
     [(''Authorization'', ''Bearer '' @ token), (''Accept'', ''application/json'')]
   \<and> headers (apiCall_request_main token path method data) =
     [(''Authorization'', ''Bearer '' @ token), (''Accept'', ''application/json'')]"
  by (simp add: apiCall_request_main_def apiCall_request_def)

lemma apiCall_sends_request:
  "apiCall requestUrl stringify token path method data =
     apiCall (\<lambda>_. requestUrl (apiCall_request stringify token path method data))
       stringify token path method data"
  by (simp add: apiCall_def)



text \<open>What the \<^verbatim>\<open>apiCall\<close> of \<^verbatim>\<open>src/main.ts\<close> would do with a body, which no call of that
  file passes: it would hand the value over as it is.\<close>

lemma apiCall_main_body_as_given:
  "body (apiCall_request_main token path method (Some d)) = Some (Raw d)"
  by (simp add: apiCall_request_main_def)



subsection \<open>Content of an exported article\<close>

text \<open>
  Claim C6, as written, fails: an article whose rendered content is the empty string and
  whose summary is \<^verbatim>\<open>S\<close> resolves to the empty string, not to the summary, and it is
  kept in the export.
\<close>

theorem getContent_empty_rendered:
  "getContent article0 = Val [] \<and> opt_chain (art_summary article0) = Val ''S''
   \<and> articlesToExport [article0] = [article0]"
  by (simp add: article0_def getContent_def articlesToExport_def)

text \<open>
  Claim C6, amended. The resolved content is the first of rendered content, summary
  content and full content that is present, that is neither \<^verbatim>\<open>undefined\<close> nor \<^verbatim>\<open>null\<close>
  (the empty string is present); when neither of the first two is present it is the full
  content as it is. An article is left out of the export exactly when the resolved content
  is \<^verbatim>\<open>undefined\<close>, which is when neither rendered nor summary content is present and
  the full content is \<^verbatim>\<open>undefined\<close>.
\<close>

theorem getContent_first_present:
  "getContent x =
     (case opt_chain (art_content x) of
        Val c \<Rightarrow> Val c
      | _ \<Rightarrow> (case opt_chain (art_summary x) of Val c \<Rightarrow> Val c | _ \<Rightarrow> art_fullContent x))
   \<and> articlesToExport xs = filter (\<lambda>x. getContent x \<noteq> Undefined) xs
   \<and> (x \<in> set (articlesToExport xs) \<longleftrightarrow> x \<in> set xs \<and> getContent x \<noteq> Undefined)
   \<and> (getContent x = Undefined \<longleftrightarrow>
        (\<forall>c. opt_chain (art_content x) \<noteq> Val c) \<and> (\<forall>c. opt_chain (art_summary x) \<noteq> Val c)
        \<and> art_fullContent x = Undefined)"
  by (cases "opt_chain (art_content x)"; cases "opt_chain (art_summary x)")
     (auto simp: getContent_def articlesToExport_def)

subsection \<open>Layout of the archive\<close>

lemma zip_read_put: "zip_read p (zip_put e z) = (if entry_path e = p then Some e else zip_read p z)"
  by (induction z) (auto simp: zip_read_def)

lemma zip_put_hd: "z \<noteq> [] \<Longrightarrow> entry_path e \<noteq> entry_path (hd z) \<Longrightarrow> zip_put e z \<noteq> [] \<and> hd (zip_put e z) = hd z"
  by (cases z) auto

lemma add_files_hd:
  assumes "add_files folders fs z = Inr z'"
    and "z \<noteq> []" and "CHR ''/'' \<notin> set (entry_path (hd z))"
    and "\<forall>d r. map_of folders d = Some r \<longrightarrow> r = d @ ''/''"
  shows "z' \<noteq> [] \<and> hd z' = hd z"
  using assms
proof (induction fs arbitrary: z)
  case Nil
  then show ?case by simp
next
  case (Cons f fs)
  show ?case
  proof (cases "file_name f \<noteq> ''mimetype''")
    case False
    then show ?thesis using Cons by simp
  next
    case True
    show ?thesis
    proof (cases "file_folder f \<noteq> []")
      case False
      let ?z = "zip_file [] (file_folder f @ ''/'' @ file_name f) (Some (file_content f)) None z"
      have "CHR ''/'' \<in> set ([] @ file_folder f @ ''/'' @ file_name f)" by simp
      then have "[] @ file_folder f @ ''/'' @ file_name f \<noteq> entry_path (hd z)"
        using Cons.prems(3) by metis
      then have "?z \<noteq> [] \<and> hd ?z = hd z"
        unfolding zip_file_def using Cons.prems(2)
        by (intro zip_put_hd) simp_all
      moreover have "add_files folders fs ?z = Inr z'"
        using Cons.prems(1) True False by simp
      ultimately show ?thesis
        using Cons.IH [of ?z] Cons.prems(3,4) by simp
    next
      case nonempty: True
      then obtain root where root: "map_of folders (file_folder f) = Some root"
        using Cons.prems(1) True by (auto split: option.splits)
      then have r: "root = file_folder f @ ''/''"
        using Cons.prems(4) by blast
      let ?z = "zip_file root (file_name f) (Some (file_content f)) None z"
      have "CHR ''/'' \<in> set (root @ file_name f)" using r by simp
      then have "root @ file_name f \<noteq> entry_path (hd z)"
        using Cons.prems(3) by metis
      then have "?z \<noteq> [] \<and> hd ?z = hd z"
        unfolding zip_file_def using Cons.prems(2)
        by (intro zip_put_hd) simp_all
      moreover have "add_files folders fs ?z = Inr z'"
        using Cons.prems(1) True nonempty root by simp
      ultimately show ?thesis
        using Cons.IH [of ?z] Cons.prems(3,4) by simp
    qed
  qed
qed

lemma add_files_read:
  assumes "add_files folders fs z = Inr z'"
    and "\<forall>d r. map_of folders d = Some r \<longrightarrow> r = d @ ''/''"
  shows "(zip_read p z' = zip_read p z
            \<and> (\<forall>g \<in> set fs. file_name g \<noteq> ''mimetype'' \<longrightarrow> entry_path (file_entry g) \<noteq> p))
         \<or> (\<exists>g \<in> set fs. file_name g \<noteq> ''mimetype'' \<and> entry_path (file_entry g) = p
               \<and> zip_read p z' = Some (file_entry g))"
  using assms
proof (induction fs arbitrary: z)
  case Nil
  then show ?case by simp
next
  case (Cons f fs)
  show ?case
  proof (cases "file_name f \<noteq> ''mimetype''")
    case False
    then have "add_files folders fs z = Inr z'" using Cons.prems(1) by simp
    from Cons.IH [OF this Cons.prems(2)] False show ?thesis by auto
  next
    case True
    have step: "\<exists>root. add_files folders fs (zip_put (file_entry f) z) = Inr z'
       \<and> (file_folder f \<noteq> [] \<longrightarrow> map_of folders (file_folder f) = Some root)"
    proof (cases "file_folder f \<noteq> []")
      case False
      then show ?thesis using Cons.prems(1) True by (simp add: zip_file_def file_entry_def)
    next
      case nonempty: True
      then obtain root where root: "map_of folders (file_folder f) = Some root"
        using Cons.prems(1) True by (auto split: option.splits)
      then have "root = file_folder f @ ''/''"
        using Cons.prems(2) by blast
      then show ?thesis
        using Cons.prems(1) True nonempty root by (simp add: zip_file_def file_entry_def)
    qed
    then have rest: "add_files folders fs (zip_put (file_entry f) z) = Inr z'" by blast
    from Cons.IH [OF rest Cons.prems(2)] show ?thesis
      using True by (auto simp: zip_read_put split: if_splits)
  qed
qed

lemma add_files_folders:
  assumes "add_files folders fs z = Inr z'" and "f \<in> set fs"
    and "file_name f \<noteq> ''mimetype''" and "file_folder f \<noteq> []"
  shows "file_folder f \<in> set (map fst folders)"
  using assms
proof (induction fs arbitrary: z)
  case Nil
  then show ?case by simp
next
  case (Cons g fs)
  show ?case
  proof (cases "f = g")
    case True
    then obtain root where "map_of folders (file_folder f) = Some root"
      using Cons.prems by (auto split: option.splits)
    then show ?thesis by (auto dest: map_of_SomeD intro: rev_image_eqI)
  next
    case False
    then have "f \<in> set fs" using Cons.prems(2) by simp
    moreover obtain z1 where "add_files folders fs z1 = Inr z'"
      using Cons.prems(1) by (auto split: if_splits option.splits)
    ultimately show ?thesis using Cons.IH Cons.prems(3,4) by blast
  qed
qed

text \<open>
  Claim C7. Whenever the archive is assembled from a file list that has a mimetype file (the
  e-book library always generates one), the first entry of the container is the mimetype
  entry, written with the option \<^verbatim>\<open>compression: STORE\<close>, and every file not named
  \<^verbatim>\<open>mimetype\<close> was generated under one of the five folders (or under none) and stands in
  the container under the path of its folder and name, with the content of a file of that
  folder and name.
\<close>

theorem archive_layout:
  assumes "zip_assemble files = Inr z"
    and "find (\<lambda>file. file_name file = ''mimetype'') files = Some m"
  shows "z \<noteq> []
    \<and> hd z = \<lparr>entry_path = ''mimetype'', entry_payload = file_data m,
               entry_compression = Some ''STORE'', entry_dir = False\<rparr>
    \<and> (\<forall>f \<in> set files. file_name f \<noteq> ''mimetype'' \<longrightarrow>
          file_folder f \<in> set [[], ''META-INF'', ''OEBPF'', ''OEBPF/css'', ''OEBPF/content'', ''OEBPF/images'']
          \<and> (\<exists>g \<in> set files. file_name g \<noteq> ''mimetype''
                \<and> file_folder g @ ''/'' @ file_name g = file_folder f @ ''/'' @ file_name f
                \<and> zip_read (file_folder f @ ''/'' @ file_name f) z =
                    Some \<lparr>entry_path = file_folder f @ ''/'' @ file_name f,
                          entry_payload = Some (file_content g),
                          entry_compression = None, entry_dir = False\<rparr>))"
proof -
  let ?folders = "[(''META-INF'', ''META-INF/''), (''OEBPF'', ''OEBPF/''), (''OEBPF/css'', ''OEBPF/css/''),
                    (''OEBPF/content'', ''OEBPF/content/''), (''OEBPF/images'', ''OEBPF/images/'')]"
  let ?m = "\<lparr>entry_path = ''mimetype'', entry_payload = file_data m,
               entry_compression = Some ''STORE'', entry_dir = False\<rparr>"
  let ?dir = "\<lambda>p. \<lparr>entry_path = p, entry_payload = None, entry_compression = None, entry_dir = True\<rparr>"
  let ?z5 = "[?m, ?dir ''META-INF/'', ?dir ''OEBPF/'', ?dir ''OEBPF/css/'', ?dir ''OEBPF/content/'',
              ?dir ''OEBPF/images/'']"
  have name: "file_name m = ''mimetype''"
    using assms(2) by (auto simp: find_Some_iff)
  have run: "add_files ?folders files ?z5 = Inr z"
    using assms by (simp add: zip_assemble_def zip_folder_def zip_file_def name Let_def)
  have roots: "\<forall>d r. map_of ?folders d = Some r \<longrightarrow> r = d @ ''/''"
    by (auto split: if_splits)
  have hd: "z \<noteq> [] \<and> hd z = ?m"
    using add_files_hd [OF run _ _ roots] by simp
  have each: "file_folder f \<in> set [[], ''META-INF'', ''OEBPF'', ''OEBPF/css'', ''OEBPF/content'', ''OEBPF/images'']
          \<and> (\<exists>g \<in> set files. file_name g \<noteq> ''mimetype''
                \<and> file_folder g @ ''/'' @ file_name g = file_folder f @ ''/'' @ file_name f
                \<and> zip_read (file_folder f @ ''/'' @ file_name f) z =
                    Some \<lparr>entry_path = file_folder f @ ''/'' @ file_name f,
                          entry_payload = Some (file_content g),
                          entry_compression = None, entry_dir = False\<rparr>)"
    if f: "f \<in> set files" "file_name f \<noteq> ''mimetype''" for f
  proof
    show "file_folder f \<in> set [[], ''META-INF'', ''OEBPF'', ''OEBPF/css'', ''OEBPF/content'', ''OEBPF/images'']"
      using add_files_folders [OF run f(1) f(2)] by (cases "file_folder f = []") auto
    from add_files_read [OF run roots, of "file_folder f @ ''/'' @ file_name f"]
    show "\<exists>g \<in> set files. file_name g \<noteq> ''mimetype''
                \<and> file_folder g @ ''/'' @ file_name g = file_folder f @ ''/'' @ file_name f
                \<and> zip_read (file_folder f @ ''/'' @ file_name f) z =
                    Some \<lparr>entry_path = file_folder f @ ''/'' @ file_name f,
                          entry_payload = Some (file_content g),
                          entry_compression = None, entry_dir = False\<rparr>"
    proof
      assume "zip_read (file_folder f @ ''/'' @ file_name f) z = zip_read (file_folder f @ ''/'' @ file_name f) ?z5
            \<and> (\<forall>g \<in> set files. file_name g \<noteq> ''mimetype'' \<longrightarrow> entry_path (file_entry g) \<noteq> file_folder f @ ''/'' @ file_name f)"
      then have False using f by (auto simp: file_entry_def)
      then show ?thesis ..
    next
      assume "\<exists>g \<in> set files. file_name g \<noteq> ''mimetype'' \<and> entry_path (file_entry g) = file_folder f @ ''/'' @ file_name f
               \<and> zip_read (file_folder f @ ''/'' @ file_name f) z = Some (file_entry g)"
      then show ?thesis by (auto simp: file_entry_def)
    qed
  qed
  show ?thesis using hd each by blast
qed

theorem archive_layout_witness:
  "(\<exists>z. zip_assemble epub_files0 = Inr z
      \<and> hd z = \<lparr>entry_path = ''mimetype'', entry_payload = None,
                 entry_compression = Some ''STORE'', entry_dir = False\<rparr>
      \<and> zip_read ''META-INF/container.xml'' z =
          Some \<lparr>entry_path = ''META-INF/container.xml'', entry_payload = Some ''<container/>'',
                entry_compression = None, entry_dir = False\<rparr>
      \<and> zip_read ''OEBPF/content/s1.xhtml'' z =
          Some \<lparr>entry_path = ''OEBPF/content/s1.xhtml'', entry_payload = Some ''<html/>'',
                entry_compression = None, entry_dir = False\<rparr>)"
proof -
  obtain z where z: "zip_assemble epub_files0 = Inr z"
    by (simp add: zip_assemble_def epub_files0_def zip_folder_def zip_file_def Let_def)
  have m: "find (\<lambda>file. file_name file = ''mimetype'') epub_files0 = Some (hd epub_files0)"
    by (simp add: epub_files0_def)
  have r: "zip_read ''META-INF/container.xml'' z =
          Some \<lparr>entry_path = ''META-INF/container.xml'', entry_payload = Some ''<container/>'',
                entry_compression = None, entry_dir = False\<rparr>"
    "zip_read ''OEBPF/content/s1.xhtml'' z =
          Some \<lparr>entry_path = ''OEBPF/content/s1.xhtml'', entry_payload = Some ''<html/>'',
                entry_compression = None, entry_dir = False\<rparr>"
    using z by (auto simp: zip_assemble_def epub_files0_def zip_folder_def zip_file_def Let_def zip_read_def)
  show ?thesis
    using z r archive_layout [OF z m] by (simp add: epub_files0_def)
qed

subsection \<open>The sync loop\<close>

text \<open>Merging a page touches the vault and the counter only.\<close>

lemma appendEntry_frame:
  "settings (step_state (appendEntry V obsidianFile e st)) = settings st
   \<and> persisted (step_state (appendEntry V obsidianFile e st)) = persisted st
   \<and> events (step_state (appendEntry V obsidianFile e st)) = events st
   \<and> loopToken (step_state (appendEntry V obsidianFile e st)) = loopToken st"
  by (simp add: appendEntry_def split: sum.splits)

lemma processEntry_frame:
  "settings (step_state (processEntry V newDate folderName e st)) = settings st
   \<and> persisted (step_state (processEntry V newDate folderName e st)) = persisted st
   \<and> events (step_state (processEntry V newDate folderName e st)) = events st
   \<and> loopToken (step_state (processEntry V newDate folderName e st)) = loopToken st"
  using appendEntry_frame [of V _ e]
  by (auto simp: processEntry_def Let_def split: option.splits sum.splits)

lemma processAnnotations_frame:
  "settings (step_state (processAnnotations V newDate folderName es st)) = settings st
   \<and> persisted (step_state (processAnnotations V newDate folderName es st)) = persisted st
   \<and> events (step_state (processAnnotations V newDate folderName es st)) = events st
   \<and> loopToken (step_state (processAnnotations V newDate folderName es st)) = loopToken st"
proof (induction es arbitrary: st)
  case Nil
  then show ?case by simp
next
  case (Cons e es)
  show ?case
  proof (cases "processEntry V newDate folderName e st")
    case (Next st1)
    then show ?thesis
      using Cons.IH [of st1] processEntry_frame [of V newDate folderName e st] by simp
  next
    case (Threw message st1)
    then show ?thesis
      using processEntry_frame [of V newDate folderName e st] by simp
  qed
qed

lemma loop_body_cases:
  obtains
    (threw) message where
      "getAnnotations (\<lambda>_. r) (template_str (accessToken (settings st))) (loopToken st) (lastSync (settings st)) = Inl message"
      "loop_body V newDate folderName r st = Exit (loop_catch message (send_request st))"
  | (undefined)
      "getAnnotations (\<lambda>_. r) (template_str (accessToken (settings st))) (loopToken st) (lastSync (settings st)) = Inr None"
      "loop_body V newDate folderName r st = Exit (send_request st)"
  | (merge_threw) res message st1 where
      "getAnnotations (\<lambda>_. r) (template_str (accessToken (settings st))) (loopToken st) (lastSync (settings st)) = Inr (Some res)"
      "processAnnotations V newDate folderName (page_entries res) ((send_request st)\<lparr>loopToken := page_continuation res\<rparr>) = Threw message st1"
      "loop_body V newDate folderName r st = Exit (loop_catch message st1)"
  | (short) res st1 where
      "getAnnotations (\<lambda>_. r) (template_str (accessToken (settings st))) (loopToken st) (lastSync (settings st)) = Inr (Some res)"
      "processAnnotations V newDate folderName (page_entries res) ((send_request st)\<lparr>loopToken := page_continuation res\<rparr>) = Next st1"
      "page_count res < 100"
      "loop_body V newDate folderName r st = Exit (notice ''All Feedly annotations synced''
                      (saveSettings (st1\<lparr>settings := (settings st1)
                         \<lparr>continuationToken := None,
                          lastSync := continuationTime (settings st1)\<rparr>\<rparr>)))"
  | (full) res st1 where
      "getAnnotations (\<lambda>_. r) (template_str (accessToken (settings st))) (loopToken st) (lastSync (settings st)) = Inr (Some res)"
      "processAnnotations V newDate folderName (page_entries res) ((send_request st)\<lparr>loopToken := page_continuation res\<rparr>) = Next st1"
      "\<not> page_count res < 100"
      "loop_body V newDate folderName r st = Again (saveSettings (st1\<lparr>settings := (settings st1)
                         \<lparr>continuationToken := loopToken st1\<rparr>\<rparr>))"
proof -
  let ?g = "getAnnotations (\<lambda>_. r) (template_str (accessToken (settings st))) (loopToken st) (lastSync (settings st))"
  show thesis
  proof (cases ?g)
    case (Inl message)
    then show ?thesis using threw by (simp add: loop_body_def)
  next
    case (Inr res)
    show ?thesis
    proof (cases res)
      case None
      then show ?thesis using Inr undefined by (simp add: loop_body_def)
    next
      case (Some p)
      show ?thesis
      proof (cases "processAnnotations V newDate folderName (page_entries p) ((send_request st)\<lparr>loopToken := page_continuation p\<rparr>)")
        case (Next st1)
        then show ?thesis using Inr Some short [of p st1] full [of p st1]
          by (cases "page_count p < 100") (simp_all add: loop_body_def)
      next
        case (Threw message st1)
        then show ?thesis using Inr Some merge_threw [of p message st1]
          by (simp add: loop_body_def)
      qed
    qed
  qed
qed

lemma merged_frame:
  assumes "processAnnotations V newDate folderName es ((send_request st)\<lparr>loopToken := t\<rparr>) = Next st1
           \<or> processAnnotations V newDate folderName es ((send_request st)\<lparr>loopToken := t\<rparr>) = Threw message st1"
  shows "settings st1 = settings st \<and> persisted st1 = persisted st
         \<and> events st1 = events (send_request st) \<and> loopToken st1 = t"
  using assms processAnnotations_frame [of V newDate folderName es "(send_request st)\<lparr>loopToken := t\<rparr>"]
  by (auto simp: send_request_def)

lemma loop_body_step:
  "lastSync (settings (loop_state (loop_body V newDate folderName r st))) =
     (if merges_short_page V newDate folderName r st then continuationTime (settings st)
      else lastSync (settings st))
   \<and> continuationTime (settings (loop_state (loop_body V newDate folderName r st))) =
       continuationTime (settings st)
   \<and> (persisted (loop_state (loop_body V newDate folderName r st)) = persisted st
        \<and> settings (loop_state (loop_body V newDate folderName r st)) = settings st
      \<or> persisted (loop_state (loop_body V newDate folderName r st)) =
          settings (loop_state (loop_body V newDate folderName r st)))"
proof (cases rule: loop_body_cases [of r st V newDate folderName])
  case (threw message)
  then show ?thesis
    by (simp add: merges_short_page_def loop_catch_def notice_def send_request_def)
next
  case undefined
  then show ?thesis by (simp add: merges_short_page_def send_request_def)
next
  case (merge_threw res message st1)
  then show ?thesis
    using merged_frame [OF disjI2 [OF merge_threw(2)]]
    by (simp add: merges_short_page_def loop_catch_def notice_def send_request_def)
next
  case (short res st1)
  then show ?thesis
    using merged_frame [OF disjI1 [OF short(2)]]
    by (simp add: merges_short_page_def notice_def saveSettings_def)
next
  case (full res st1)
  then show ?thesis
    using merged_frame [OF disjI1 [OF full(2)]]
    by (simp add: merges_short_page_def notice_def saveSettings_def)
qed

lemma loop_body_completes:
  assumes "merges_short_page V newDate folderName r st"
  shows "continuationToken (settings (loop_state (loop_body V newDate folderName r st))) = None
    \<and> persisted (loop_state (loop_body V newDate folderName r st)) =
        settings (loop_state (loop_body V newDate folderName r st))
    \<and> loop_body V newDate folderName r st = Exit (loop_state (loop_body V newDate folderName r st))"
proof (cases rule: loop_body_cases [of r st V newDate folderName])
  case (short res st1)
  then show ?thesis by (simp add: notice_def saveSettings_def)
qed (use assms in \<open>simp_all add: merges_short_page_def\<close>)

lemma sync_loop_lastSync:
  "continuationTime (settings (run_state (sync_loop V newDate folderName script st))) =
     continuationTime (settings st)
   \<and> (lastSync (settings (run_state (sync_loop V newDate folderName script st))) = lastSync (settings st)
      \<or> lastSync (settings (run_state (sync_loop V newDate folderName script st))) =
          continuationTime (settings st))"
proof (induction script arbitrary: st)
  case Nil
  then show ?case by (simp add: send_request_def)
next
  case (Cons r script)
  note step = loop_body_step [of V newDate folderName r st]
  show ?case
  proof (cases "loop_body V newDate folderName r st")
    case (Exit st1)
    then show ?thesis using step by (simp split: if_splits)
  next
    case (Again st1)
    then have "\<not> merges_short_page V newDate folderName r st"
      using loop_body_completes [of V newDate folderName r st] by auto
    then show ?thesis using step Again Cons.IH [of st1] by simp
  qed
qed

lemma loop_body_events:
  "\<exists>more. events (loop_state (loop_body V newDate folderName r st)) = events (send_request st) @ more"
proof (cases rule: loop_body_cases [of r st V newDate folderName])
  case (threw message)
  then show ?thesis by (simp add: loop_catch_def notice_def)
next
  case undefined
  then show ?thesis by simp
next
  case (merge_threw res message st1)
  then show ?thesis
    using merged_frame [OF disjI2 [OF merge_threw(2)]] by (simp add: loop_catch_def notice_def)
next
  case (short res st1)
  then show ?thesis
    using merged_frame [OF disjI1 [OF short(2)]] by (simp add: notice_def saveSettings_def)
next
  case (full res st1)
  then show ?thesis
    using merged_frame [OF disjI1 [OF full(2)]] by (simp add: saveSettings_def)
qed

lemma sync_loop_events:
  "\<exists>more. events (run_state (sync_loop V newDate folderName script st)) = events (send_request st) @ more"
proof (induction script arbitrary: st)
  case Nil
  then show ?case by simp
next
  case (Cons r script)
  obtain m1 where m1: "events (loop_state (loop_body V newDate folderName r st)) = events (send_request st) @ m1"
    using loop_body_events by blast
  show ?case
  proof (cases "loop_body V newDate folderName r st")
    case (Exit st1)
    then show ?thesis using m1 by simp
  next
    case (Again st1)
    obtain m2 where "events (run_state (sync_loop V newDate folderName script st1)) = events (send_request st1) @ m2"
      using Cons.IH by blast
    then show ?thesis using m1 Again by (simp add: send_request_def)
  qed
qed

lemma sync_loop_persisted:
  "persisted (run_state (sync_loop V newDate folderName script st)) = persisted st
     \<and> settings (run_state (sync_loop V newDate folderName script st)) = settings st
   \<or> persisted (run_state (sync_loop V newDate folderName script st)) =
       settings (run_state (sync_loop V newDate folderName script st))"
proof (induction script arbitrary: st)
  case Nil
  then show ?case by (simp add: send_request_def)
next
  case (Cons r script)
  note step = loop_body_step [of V newDate folderName r st]
  show ?case
  proof (cases "loop_body V newDate folderName r st")
    case (Exit st1)
    then show ?thesis using step by simp
  next
    case (Again st1)
    then show ?thesis using step Cons.IH [of st1] by auto
  qed
qed

lemma sync_begin_props:
  "settings (sync_begin now st) =
     (if truthy (continuationToken (settings st)) then settings st
      else (settings st)\<lparr>continuationTime := Some now\<rparr>)
   \<and> persisted (sync_begin now st) =
     (if truthy (continuationToken (settings st)) then persisted st
      else (settings st)\<lparr>continuationTime := Some now\<rparr>)
   \<and> events (sync_begin now st) = events st @
     (if truthy (continuationToken (settings st)) then []
      else [Saved ((settings st)\<lparr>continuationTime := Some now\<rparr>)])
     @ [Noticed ''Beginning to download Feedly annotations'']
   \<and> loopToken (sync_begin now st) = continuationToken (settings st)
   \<and> vault (sync_begin now st) = vault st"
  by (simp add: sync_begin_def Let_def saveSettings_def notice_def)

lemma sync_trace:
  assumes "truthy (userId stored)" and "truthy (accessToken stored)"
  shows "\<exists>rest.
    events (run_state (sync V newDate now script stored v)) =
      (if truthy (continuationToken stored) then []
       else [Saved ((loadSettings stored)\<lparr>continuationTime := Some now\<rparr>)])
      @ Noticed ''Beginning to download Feedly annotations'' # rest
    \<and> ((\<exists>message s. sync V newDate now script stored v = Aborted message s) \<and> rest = []
       \<or> (\<exists>more. rest = Requested (getAnnotations_request (template_str (accessToken stored))
                                      (continuationToken stored) (lastSync stored)) # more))
    \<and> continuationTime (settings (run_state (sync V newDate now script stored v))) =
        (if truthy (continuationToken stored) then continuationTime stored else Some now)
    \<and> continuationTime (persisted (run_state (sync V newDate now script stored v))) =
        (if truthy (continuationToken stored) then continuationTime stored else Some now)
    \<and> (lastSync (persisted (run_state (sync V newDate now script stored v))) = lastSync stored
       \<or> lastSync (persisted (run_state (sync V newDate now script stored v))) =
          continuationTime (persisted (run_state (sync V newDate now script stored v))))"
proof -
  define st0 :: "'a sync_state" where
    "st0 = \<lparr>settings = loadSettings stored, persisted = stored, vault = v,
            entryCounter = 0, loopToken = None, events = []\<rparr>"
  define st1 where "st1 = sync_begin now st0"
  define folderName where
    "folderName = (case annotationsFolder (settings st1) of Some f \<Rightarrow> f | None \<Rightarrow> ''Feedly Annotations'')"
  define pre where
    "pre = (if truthy (continuationToken stored) then []
            else [Saved ((loadSettings stored)\<lparr>continuationTime := Some now\<rparr>)])
           @ [Noticed ''Beginning to download Feedly annotations'']"
  have creds: "truthy (userId (settings st0))" "truthy (accessToken (settings st0))"
    using assms by (simp_all add: st0_def loadSettings_def)
  have b: "events st1 = pre"
    "settings st1 = (if truthy (continuationToken stored) then loadSettings stored
                     else (loadSettings stored)\<lparr>continuationTime := Some now\<rparr>)"
    "persisted st1 = (if truthy (continuationToken stored) then stored
                      else (loadSettings stored)\<lparr>continuationTime := Some now\<rparr>)"
    "loopToken st1 = continuationToken stored"
    using sync_begin_props [of now st0]
    by (simp_all add: st1_def st0_def pre_def loadSettings_def)
  have ct: "continuationTime (settings st1) =
              (if truthy (continuationToken stored) then continuationTime stored else Some now)"
       "continuationTime (persisted st1) = continuationTime (settings st1)"
       "lastSync (settings st1) = lastSync stored"
       "accessToken (settings st1) = accessToken stored"
       "lastSync (persisted st1) = lastSync stored"
    using b by (simp_all add: loadSettings_def)
  show ?thesis
  proof (cases "if getFolderByPath V (vault st1) folderName then Inr (vault st1)
                else createFolder V (vault st1) folderName")
    case (Inl message)
    then have "sync V newDate now script stored v = Aborted message st1"
      using creds unfolding sync_def Let_def st0_def [symmetric] st1_def [symmetric] folderName_def [symmetric]
      by simp
    then show ?thesis using b ct by (simp add: pre_def)
  next
    case (Inr v1)
    let ?R = "sync_loop V newDate folderName script (st1\<lparr>vault := v1\<rparr>)"
    have s: "sync V newDate now script stored v =
             (case ?R of
                Done st2 \<Rightarrow> Done (notice (''Synced '' @ show_nat (entryCounter st2) @ '' annotations'') st2)
              | Aborted message st2 \<Rightarrow> Aborted message st2
              | Waiting st2 \<Rightarrow> Waiting st2)"
      using creds Inr unfolding sync_def Let_def st0_def [symmetric] st1_def [symmetric] folderName_def [symmetric]
      by simp
    obtain more where more: "events (run_state ?R) = events (send_request (st1\<lparr>vault := v1\<rparr>)) @ more"
      using sync_loop_events by blast
    have inv: "continuationTime (settings (run_state ?R)) = continuationTime (settings st1)"
      using sync_loop_lastSync [of V newDate folderName script "st1\<lparr>vault := v1\<rparr>"] by simp
    have per: "continuationTime (persisted (run_state ?R)) = continuationTime (settings st1)"
      using sync_loop_persisted [of V newDate folderName script "st1\<lparr>vault := v1\<rparr>"] inv ct(2)
      by auto
    have fin: "\<exists>tail. events (run_state (sync V newDate now script stored v)) = events (run_state ?R) @ tail
             \<and> settings (run_state (sync V newDate now script stored v)) = settings (run_state ?R)
             \<and> persisted (run_state (sync V newDate now script stored v)) = persisted (run_state ?R)"
      unfolding s by (cases ?R) (simp_all add: notice_def)
    then obtain tail where tail:
      "events (run_state (sync V newDate now script stored v)) = events (run_state ?R) @ tail"
      "settings (run_state (sync V newDate now script stored v)) = settings (run_state ?R)"
      "persisted (run_state (sync V newDate now script stored v)) = persisted (run_state ?R)"
      by blast
    have "events (run_state (sync V newDate now script stored v)) =
            pre @ Requested (getAnnotations_request (template_str (accessToken stored))
                               (continuationToken stored) (lastSync stored)) # (more @ tail)"
      using tail(1) more b(1,4) ct(3,4) by (simp add: send_request_def)
    moreover have "lastSync (persisted (run_state ?R)) = lastSync stored
        \<or> lastSync (persisted (run_state ?R)) = continuationTime (persisted (run_state ?R))"
      using sync_loop_persisted [of V newDate folderName script "st1\<lparr>vault := v1\<rparr>"]
        sync_loop_lastSync [of V newDate folderName script "st1\<lparr>vault := v1\<rparr>"] ct(3,5) inv per
      by auto
    ultimately show ?thesis using tail(2,3) inv per ct(1) by (simp add: pre_def)
  qed
qed



lemmas sync_eval =
  sync_def sync_begin_def loadSettings_def DEFAULT_SETTINGS_def saveSettings_def notice_def
  loop_body_def loop_catch_def send_request_def getAnnotations_def getAnnotations_catch_def
  getAnnotations_request_def getAnnotations_path_def apiCall_def apiCall_request_def
  OBJECT_MESSAGE_def LENGTH_TYPE_ERROR_def processEntry_def appendEntry_def
  show_int_def show_nat.simps digit_char_def mem_vault_def Let_def

lemma getAnnotations_rejected:
  "getAnnotations (\<lambda>_. Rejected e) token continuation syncTime = getAnnotations_catch e"
  by (simp add: getAnnotations_def apiCall_def)

lemma getAnnotations_page:
  assumes "json_entries a = Some es" and "\<not> truthy_num (json_errorCode a)"
  shows "getAnnotations (\<lambda>_. Responded a) token continuation syncTime =
           Inr (Some \<lparr>page_entries = es, page_continuation = json_continuation a,
                      page_count = length es\<rparr>)"
  using assms by (simp add: getAnnotations_def apiCall_def)







lemma full_page_saves_token:
  assumes "json_entries a = Some es" and "\<not> truthy_num (json_errorCode a)"
    and "\<not> length es < 100"
    and "processAnnotations V newDate folderName es
           ((send_request st)\<lparr>loopToken := json_continuation a\<rparr>) = Next st1"
  shows "loop_body V newDate folderName (Responded a) st =
           Again (saveSettings (st1\<lparr>settings := (settings st)\<lparr>continuationToken := json_continuation a\<rparr>\<rparr>))"
  using assms merged_frame [OF disjI1 [OF assms(4)]]
  by (simp add: loop_body_def getAnnotations_page)

lemma rejected_keeps_state:
  assumes "str_includes e ''status 401'' \<or> str_includes e ''status 429''"
  shows "\<exists>st'. sync_loop V newDate folderName (Rejected e # script) st = Done st'
           \<and> settings st' = settings st \<and> persisted st' = persisted st"
  using assms
  by (auto simp: loop_body_def getAnnotations_rejected getAnnotations_catch_def loop_catch_def
        notice_def send_request_def)

lemma rate_limit_after_full_page:
  assumes "json_entries a = Some es" and "\<not> truthy_num (json_errorCode a)"
    and "\<not> length es < 100"
    and "processAnnotations V newDate folderName es
           ((send_request st)\<lparr>loopToken := json_continuation a\<rparr>) = Next st1"
    and "str_includes e ''status 401'' \<or> str_includes e ''status 429''"
  shows "\<exists>st'. sync_loop V newDate folderName (Responded a # Rejected e # script) st = Done st'
           \<and> persisted st' = (settings st)\<lparr>continuationToken := json_continuation a\<rparr>
           \<and> settings st' = (settings st)\<lparr>continuationToken := json_continuation a\<rparr>"
proof -
  let ?st2 = "saveSettings (st1\<lparr>settings := (settings st)\<lparr>continuationToken := json_continuation a\<rparr>\<rparr>)"
  have "sync_loop V newDate folderName (Responded a # Rejected e # script) st =
          sync_loop V newDate folderName (Rejected e # script) ?st2"
    using full_page_saves_token [OF assms(1-4)] by simp
  moreover obtain st' where "sync_loop V newDate folderName (Rejected e # script) ?st2 = Done st'"
    "settings st' = settings ?st2" "persisted st' = persisted ?st2"
    using rejected_keeps_state [OF assms(5)] by blast
  ultimately show ?thesis by (simp add: saveSettings_def)
qed

lemma mem_vault_merges:
  "\<exists>st'. processAnnotations mem_vault newDate folderName es st = Next st'"
proof (induction es arbitrary: st)
  case Nil
  then show ?case by simp
next
  case (Cons e es)
  have "\<exists>st1. processEntry mem_vault newDate folderName e st = Next st1"
  proof (cases "vault st")
    case (Pair fs ds)
    then show ?thesis by (auto simp: processEntry_def appendEntry_def mem_vault_def Let_def)
  qed
  then obtain st1 where "processEntry mem_vault newDate folderName e st = Next st1" ..
  then show ?case using Cons.IH [of st1] by simp
qed

text \<open>
  Claim C2. When the page request is rejected with an error whose text has
  \<^verbatim>\<open>status 401\<close> or \<^verbatim>\<open>status 429\<close>, the iteration leaves the loop, and all it adds to
  the state is the request and one notice in the trace: settings, saved settings (with
  \<^verbatim>\<open>lastSync\<close> and \<^verbatim>\<open>continuationToken\<close>), vault and counter are as before. When the
  failure follows a full page that was merged, the saved settings are those the loop began
  with except for the token, which is the continuation of that page. A later invocation
  that finds a non-empty saved token, once its folder exists, first requests the page for
  that token and the saved \<^verbatim>\<open>lastSync\<close>.
\<close>

theorem auth_or_rate_limit_stops:
  assumes "str_includes e ''status 401'' \<or> str_includes e ''status 429''"
  shows "loop_body V newDate folderName (Rejected e) st =
           Exit (st\<lparr>events := events st @
             [Requested (getAnnotations_request (template_str (accessToken (settings st)))
                           (loopToken st) (lastSync (settings st))),
              Noticed (if str_includes e ''status 401''
                       then ''Access token expired, request a new one''
                       else ''The Feedly API rate limit has been reached, continue later'')]\<rparr>)
         \<and> sync_loop V newDate folderName (Rejected e # script) st =
           Done (loop_state (loop_body V newDate folderName (Rejected e) st))
         \<and> settings (loop_state (loop_body V newDate folderName (Rejected e) st)) = settings st
         \<and> persisted (loop_state (loop_body V newDate folderName (Rejected e) st)) = persisted st
         \<and> vault (loop_state (loop_body V newDate folderName (Rejected e) st)) = vault st
         \<and> (json_entries a = Some es \<and> \<not> truthy_num (json_errorCode a) \<and> \<not> length es < 100
              \<and> processAnnotations V newDate folderName es
                   ((send_request st)\<lparr>loopToken := json_continuation a\<rparr>) = Next st1 \<longrightarrow>
              (\<exists>st'. sync_loop V newDate folderName (Responded a # Rejected e # script) st = Done st'
                 \<and> persisted st' = (settings st)\<lparr>continuationToken := json_continuation a\<rparr>
                 \<and> settings st' = (settings st)\<lparr>continuationToken := json_continuation a\<rparr>))
         \<and> (truthy (userId stored) \<and> truthy (accessToken stored) \<and> truthy (continuationToken stored) \<longrightarrow>
              (\<exists>message s. sync V newDate now script' stored v = Aborted message s)
              \<or> (\<exists>more. events (run_state (sync V newDate now script' stored v)) =
                    Noticed ''Beginning to download Feedly annotations''
                    # Requested (getAnnotations_request (template_str (accessToken stored))
                                  (continuationToken stored) (lastSync stored)) # more))"
proof -
  have resume: "(\<exists>message s. sync V newDate now script' stored v = Aborted message s)
              \<or> (\<exists>more. events (run_state (sync V newDate now script' stored v)) =
                    Noticed ''Beginning to download Feedly annotations''
                    # Requested (getAnnotations_request (template_str (accessToken stored))
                                  (continuationToken stored) (lastSync stored)) # more)"
    if "truthy (userId stored)" "truthy (accessToken stored)" "truthy (continuationToken stored)"
    using sync_trace [OF that(1,2), of V newDate now script' v] that(3) by auto
  have page: "\<exists>st'. sync_loop V newDate folderName (Responded a # Rejected e # script) st = Done st'
                 \<and> persisted st' = (settings st)\<lparr>continuationToken := json_continuation a\<rparr>
                 \<and> settings st' = (settings st)\<lparr>continuationToken := json_continuation a\<rparr>"
    if "json_entries a = Some es" "\<not> truthy_num (json_errorCode a)" "\<not> length es < 100"
       "processAnnotations V newDate folderName es
          ((send_request st)\<lparr>loopToken := json_continuation a\<rparr>) = Next st1"
    using rate_limit_after_full_page [OF that assms] .
  have step: "loop_body V newDate folderName (Rejected e) st =
           Exit (st\<lparr>events := events st @
             [Requested (getAnnotations_request (template_str (accessToken (settings st)))
                           (loopToken st) (lastSync (settings st))),
              Noticed (if str_includes e ''status 401''
                       then ''Access token expired, request a new one''
                       else ''The Feedly API rate limit has been reached, continue later'')]\<rparr>)"
    using assms
    by (auto simp: loop_body_def getAnnotations_rejected getAnnotations_catch_def loop_catch_def
          notice_def send_request_def)
  have loop: "sync_loop V newDate folderName (Rejected e # script) st =
           Done (loop_state (loop_body V newDate folderName (Rejected e) st))"
    by (simp add: step)
  show ?thesis
    using resume page loop by (simp add: step)
qed

theorem auth_or_rate_limit_stops_witness:
  "str_includes ''Error: Request failed, status 429'' ''status 429''
   \<and> loop_body mem_vault epoch_clock ''Feedly Annotations''
        (Rejected ''Error: Request failed, status 429'') state0 =
      Exit (state0\<lparr>events :=
        [Requested (getAnnotations_request ''tok'' (Some ''c1'') (Some 100)),
         Noticed ''The Feedly API rate limit has been reached, continue later'']\<rparr>)
   \<and> continuationToken (persisted (loop_state (loop_body mem_vault epoch_clock ''Feedly Annotations''
        (Rejected ''Error: Request failed, status 429'') state0))) = Some ''c1''
   \<and> lastSync (persisted (loop_state (loop_body mem_vault epoch_clock ''Feedly Annotations''
        (Rejected ''Error: Request failed, status 429'') state0))) = Some 100
   \<and> (\<exists>st'. sync_loop mem_vault epoch_clock ''Feedly Annotations''
          [full_page0, Rejected ''Error: Request failed, status 429''] state0 = Done st'
        \<and> continuationToken (persisted st') = Some ''c2'' \<and> lastSync (persisted st') = Some 100)
   \<and> (\<exists>more. events (run_state (sync mem_vault epoch_clock 9 [] (persisted state0) ([], []))) =
        Noticed ''Beginning to download Feedly annotations''
        # Requested (getAnnotations_request ''tok'' (Some ''c1'') (Some 100)) # more)"
proof -
  let ?a = "\<lparr>json_errorCode = None,
     json_entries = Some (replicate 100 (entry0\<lparr>comment := Some ''n''\<rparr>)),
     json_continuation = Some ''c2''\<rparr>"
  have h: "str_includes ''Error: Request failed, status 429'' ''status 401''
           \<or> str_includes ''Error: Request failed, status 429'' ''status 429''"
    by simp
  have c: "truthy (userId (persisted state0)) \<and> truthy (accessToken (persisted state0))
           \<and> truthy (continuationToken (persisted state0))"
    by (simp add: state0_def stored0_def)
  have n: "\<not> (\<exists>message s. sync mem_vault epoch_clock 9 [] (persisted state0) ([], []) = Aborted message s)"
    by (simp add: state0_def stored0_def sync_eval)
  obtain st1 where m: "processAnnotations mem_vault epoch_clock ''Feedly Annotations''
      (replicate 100 (entry0\<lparr>comment := Some ''n''\<rparr>))
      ((send_request state0)\<lparr>loopToken := json_continuation ?a\<rparr>) = Next st1"
    using mem_vault_merges by blast
  have p: "json_entries ?a = Some (replicate 100 (entry0\<lparr>comment := Some ''n''\<rparr>))
      \<and> \<not> truthy_num (json_errorCode ?a)
      \<and> \<not> length (replicate 100 (entry0\<lparr>comment := Some ''n''\<rparr>)) < 100"
    by simp
  note T = auth_or_rate_limit_stops [OF h, where V = mem_vault and newDate = epoch_clock
        and folderName = "''Feedly Annotations''" and st = state0 and script = "[]"
        and stored = "persisted state0" and now = 9 and script' = "[]" and v = "([], [])"
        and a = ?a and es = "replicate 100 (entry0\<lparr>comment := Some ''n''\<rparr>)" and ?st1.0 = st1]
  have step: "loop_body mem_vault epoch_clock ''Feedly Annotations''
        (Rejected ''Error: Request failed, status 429'') state0 =
      Exit (state0\<lparr>events :=
        [Requested (getAnnotations_request ''tok'' (Some ''c1'') (Some 100)),
         Noticed ''The Feedly API rate limit has been reached, continue later'']\<rparr>)"
    using T by (simp add: state0_def stored0_def)
  have kept: "continuationToken (persisted (loop_state (loop_body mem_vault epoch_clock ''Feedly Annotations''
        (Rejected ''Error: Request failed, status 429'') state0))) = Some ''c1''
     \<and> lastSync (persisted (loop_state (loop_body mem_vault epoch_clock ''Feedly Annotations''
        (Rejected ''Error: Request failed, status 429'') state0))) = Some 100"
    using T by (simp add: state0_def stored0_def)
  obtain st' where st': "sync_loop mem_vault epoch_clock ''Feedly Annotations''
          [Responded ?a, Rejected ''Error: Request failed, status 429''] state0 = Done st'"
      "persisted st' = (settings state0)\<lparr>continuationToken := json_continuation ?a\<rparr>"
    using T m p by blast
  have page: "\<exists>st'. sync_loop mem_vault epoch_clock ''Feedly Annotations''
          [full_page0, Rejected ''Error: Request failed, status 429''] state0 = Done st'
        \<and> continuationToken (persisted st') = Some ''c2'' \<and> lastSync (persisted st') = Some 100"
    using st' by (intro exI [of _ st']) (simp add: full_page0_def state0_def stored0_def)
  have resume: "\<exists>more. events (run_state (sync mem_vault epoch_clock 9 [] (persisted state0) ([], []))) =
        Noticed ''Beginning to download Feedly annotations''
        # Requested (getAnnotations_request ''tok'' (Some ''c1'') (Some 100)) # more"
    using T c n by (simp add: state0_def stored0_def)
  show ?thesis
    using h step kept page resume by simp
qed

text \<open>
  Claim C4, as written, fails: when the request is rejected with status 500, the run shows
  the notice of the start and the notice of the count, and no notice carries the message
  of the error.
\<close>

theorem other_fetch_error_not_noticed:
  "sync mem_vault epoch_clock 9 [Rejected ''Error: Request failed, status 500''] stored0 ([], []) =
     Done \<lparr>settings = (loadSettings stored0)\<lparr>continuationTime := Some 9\<rparr>,
           persisted = (loadSettings stored0)\<lparr>continuationTime := Some 9\<rparr>,
           vault = ([], [''Feedly Annotations'']), entryCounter = 0, loopToken = None,
           events = [Saved ((loadSettings stored0)\<lparr>continuationTime := Some 9\<rparr>),
                     Noticed ''Beginning to download Feedly annotations'',
                     Requested (getAnnotations_request ''tok'' None (Some 100)),
                     Noticed ''Synced 0 annotations'']\<rparr>
   \<and> Noticed ''Error: Request failed, status 500'' \<notin> set (events (run_state
        (sync mem_vault epoch_clock 9 [Rejected ''Error: Request failed, status 500''] stored0 ([], []))))"
  by (simp add: sync_eval stored0_def)

text \<open>
  Claim C4, amended. When the page request fails with an error that is neither a 401 nor a
  429 (a rejection whose text has neither status, a payload with an error code, or a
  payload without entries), the iteration leaves the loop, and all it adds to the state is
  the request in the trace: no notice is shown for the error, and settings, saved
  settings, vault and counter are as before.
\<close>

theorem other_fetch_errors_stop_silently:
  assumes "(\<exists>e. r = Rejected e \<and> \<not> str_includes e ''status 401'' \<and> \<not> str_includes e ''status 429'')
         \<or> (\<exists>a. r = Responded a \<and> truthy_num (json_errorCode a))
         \<or> (\<exists>a. r = Responded a \<and> json_entries a = None)"
  shows "loop_body V newDate folderName r st =
           Exit (st\<lparr>events := events st @
             [Requested (getAnnotations_request (template_str (accessToken (settings st)))
                           (loopToken st) (lastSync (settings st)))]\<rparr>)
         \<and> sync_loop V newDate folderName (r # script) st =
           Done (st\<lparr>events := events st @
             [Requested (getAnnotations_request (template_str (accessToken (settings st)))
                           (loopToken st) (lastSync (settings st)))]\<rparr>)"
proof -
  have "getAnnotations (\<lambda>_. r) (template_str (accessToken (settings st))) (loopToken st)
          (lastSync (settings st)) = Inr None"
    using assms
    by (auto simp: getAnnotations_def apiCall_def getAnnotations_catch_def OBJECT_MESSAGE_def
          LENGTH_TYPE_ERROR_def split: option.splits)
  then show ?thesis by (simp add: loop_body_def send_request_def)
qed

theorem other_fetch_errors_stop_silently_witness:
  "\<not> str_includes ''Error: Request failed, status 500'' ''status 401''
   \<and> \<not> str_includes ''Error: Request failed, status 500'' ''status 429''
   \<and> sync_loop mem_vault epoch_clock ''Feedly Annotations''
        [Rejected ''Error: Request failed, status 500'', short_page0] state0 =
      Done (state0\<lparr>events := [Requested (getAnnotations_request ''tok'' (Some ''c1'') (Some 100))]\<rparr>)
   \<and> truthy_num (Some 401)
   \<and> sync_loop mem_vault epoch_clock ''Feedly Annotations''
        [Responded \<lparr>json_errorCode = Some 401, json_entries = None, json_continuation = None\<rparr>,
         short_page0] state0 =
      Done (state0\<lparr>events := [Requested (getAnnotations_request ''tok'' (Some ''c1'') (Some 100))]\<rparr>)"
proof -
  let ?r = "Rejected ''Error: Request failed, status 500'' :: annotations_json response"
  let ?a = "\<lparr>json_errorCode = Some 401, json_entries = None, json_continuation = None\<rparr>"
  have h: "(\<exists>e. ?r = Rejected e \<and> \<not> str_includes e ''status 401'' \<and> \<not> str_includes e ''status 429'')
         \<or> (\<exists>a. ?r = Responded a \<and> truthy_num (json_errorCode a))
         \<or> (\<exists>a. ?r = Responded a \<and> json_entries a = None)"
    by simp
  have k: "(\<exists>e. Responded ?a = Rejected e \<and> \<not> str_includes e ''status 401'' \<and> \<not> str_includes e ''status 429'')
         \<or> (\<exists>a. Responded ?a = Responded a \<and> truthy_num (json_errorCode a))
         \<or> (\<exists>a. Responded ?a = Responded a \<and> json_entries a = None)"
    by simp
  show ?thesis
    using other_fetch_errors_stop_silently [OF h, of mem_vault epoch_clock "''Feedly Annotations''" state0 "[short_page0]"]
      other_fetch_errors_stop_silently [OF k, of mem_vault epoch_clock "''Feedly Annotations''" state0 "[short_page0]"]
    by (simp add: state0_def stored0_def)
qed

text \<open>
  Claim C9, as written, fails: a run that starts with the empty string stored as
  \<^verbatim>\<open>continuationToken\<close> overwrites \<^verbatim>\<open>continuationTime\<close> (5 becomes 9), and a run that
  starts with no token and no user id writes nothing and shows one notice.
\<close>

theorem empty_token_restarts_sync:
  "continuationToken (stored0\<lparr>continuationToken := Some []\<rparr>) = Some []
   \<and> continuationTime (stored0\<lparr>continuationToken := Some []\<rparr>) = Some 5
   \<and> continuationTime (persisted (run_state
        (sync mem_vault epoch_clock 9 [short_page0] (stored0\<lparr>continuationToken := Some []\<rparr>) ([], [])))) = Some 9
   \<and> userId (stored0\<lparr>userId := None\<rparr>) = None
   \<and> continuationToken (stored0\<lparr>userId := None\<rparr>) = None
   \<and> sync mem_vault epoch_clock 9 [short_page0] (stored0\<lparr>userId := None\<rparr>) ([], []) =
       Done \<lparr>settings = loadSettings (stored0\<lparr>userId := None\<rparr>), persisted = stored0\<lparr>userId := None\<rparr>,
             vault = ([], []), entryCounter = 0, loopToken = None,
             events = [Noticed ''Missing Feedly user id'']\<rparr>"
  by (simp add: sync_eval stored0_def short_page0_def entry0_def)

text \<open>
  Claim C9, amended. For an invocation with user id and access token set: when the stored
  \<^verbatim>\<open>continuationToken\<close> is missing or the empty string, the first thing the run does is to
  save the settings with \<^verbatim>\<open>continuationTime\<close> set to the current time, before the notice
  of the start and before any request, and \<^verbatim>\<open>continuationTime\<close> stays the current time
  in memory and in the saved settings; when the stored token is a non-empty string,
  \<^verbatim>\<open>continuationTime\<close> stays as stored, in memory and in the saved settings.
\<close>

theorem continuationTime_snapshot:
  assumes "truthy (userId stored)" and "truthy (accessToken stored)"
  shows "(\<not> truthy (continuationToken stored) \<longrightarrow>
            (\<exists>rest. events (run_state (sync V newDate now script stored v)) =
               Saved ((loadSettings stored)\<lparr>continuationTime := Some now\<rparr>)
               # Noticed ''Beginning to download Feedly annotations'' # rest)
            \<and> continuationTime (settings (run_state (sync V newDate now script stored v))) = Some now
            \<and> continuationTime (persisted (run_state (sync V newDate now script stored v))) = Some now)
       \<and> (truthy (continuationToken stored) \<longrightarrow>
            continuationTime (settings (run_state (sync V newDate now script stored v))) =
              continuationTime stored
            \<and> continuationTime (persisted (run_state (sync V newDate now script stored v))) =
              continuationTime stored)"
  using sync_trace [OF assms, of V newDate now script v] by auto

theorem continuationTime_snapshot_witness:
  "truthy (userId stored0) \<and> truthy (accessToken stored0)
   \<and> \<not> truthy (continuationToken stored0)
   \<and> continuationTime (persisted (run_state (sync mem_vault epoch_clock 9 [short_page0] stored0 ([], [])))) = Some 9
   \<and> truthy (continuationToken (stored0\<lparr>continuationToken := Some ''c1''\<rparr>))
   \<and> continuationTime (persisted (run_state (sync mem_vault epoch_clock 9 [short_page0]
        (stored0\<lparr>continuationToken := Some ''c1''\<rparr>) ([], [])))) = Some 5"
proof -
  have a: "truthy (userId stored0)" "truthy (accessToken stored0)" "\<not> truthy (continuationToken stored0)"
    by (simp_all add: stored0_def)
  have b: "truthy (userId (stored0\<lparr>continuationToken := Some ''c1''\<rparr>))"
    "truthy (accessToken (stored0\<lparr>continuationToken := Some ''c1''\<rparr>))"
    "truthy (continuationToken (stored0\<lparr>continuationToken := Some ''c1''\<rparr>))"
    by (simp_all add: stored0_def)
  show ?thesis
    using a b continuationTime_snapshot [OF a(1,2), of mem_vault epoch_clock 9 "[short_page0]" "([], [])"]
      continuationTime_snapshot [OF b(1,2), of mem_vault epoch_clock 9 "[short_page0]" "([], [])"]
    by (simp add: stored0_def)
qed

end
